theory Spec2Isabelle
  imports Main "HOL-Library.Word"
begin

section \<open>Collective operations of Horovod: data model\<close>

text \<open>
  The development embeds \<^verbatim>\<open>horovod/common/ops/collective_operations.cc\<close>.
  Machine integers are words: a C++ \<^verbatim>\<open>int\<close> and an \<^verbatim>\<open>unsigned int\<close> are
  32-bit words, \<^verbatim>\<open>int64_t\<close>, \<^verbatim>\<open>size_t\<close> and data pointers are 64-bit words
  (an LP64 target). \<open>sint\<close> reads the value of a signed integer, \<open>uint\<close> and
  \<open>unat\<close> the value of an unsigned one. A conversion that narrows keeps the low bits
  (\<open>ucast\<close>), a signed integer widens by sign extension (\<open>scast\<close>), an unsigned one
  by zero extension (\<open>ucast\<close>). Addition and multiplication wrap around; for the
  signed types, where C++ leaves overflow undefined, this is the behaviour of the
  usual two's-complement targets.

  Loop counters and array indices are natural numbers: a counter stays below the bound
  of its loop, and the index \<^verbatim>\<open>ec * size + rc\<close> cannot wrap around in \<^verbatim>\<open>size_t\<close>
  for a batch that fits in memory. Reading a vector outside its bounds, which C++
  leaves undefined, ends the call with a fault.
\<close>

type_synonym int32 = "32 word"
type_synonym int64 = "64 word"

text \<open>
  Modelled from the spec: the enumeration \<^verbatim>\<open>DataType\<close> is declared in a header that
  is not among the sources. Only its identity matters here; a value is the number of the
  enumerator.
\<close>

type_synonym DataType = nat

text \<open>
  Modelled from the spec: \<^verbatim>\<open>TensorShape\<close> is declared in a header that is not among
  the sources. A shape is the sequence of its extents; \<^verbatim>\<open>AddDim\<close> appends one extent,
  \<^verbatim>\<open>AppendShape\<close> appends all extents of another shape, \<^verbatim>\<open>dims()\<close> is the number of
  extents, \<^verbatim>\<open>dim_size(i)\<close> is the \<open>i\<close>-th extent and \<^verbatim>\<open>num_elements()\<close> is the
  product of the extents (the element count of the spec), computed in \<^verbatim>\<open>int64_t\<close>.
\<close>

type_synonym TensorShape = "int64 list"

definition AddDim :: "TensorShape \<Rightarrow> int64 \<Rightarrow> TensorShape" where
  "AddDim s d = s @ [d]"

definition AppendShape :: "TensorShape \<Rightarrow> TensorShape \<Rightarrow> TensorShape" where
  "AppendShape s other = s @ other"

definition dims :: "TensorShape \<Rightarrow> nat" where
  "dims s = length s"

definition dim_size :: "TensorShape \<Rightarrow> nat \<Rightarrow> int64" where
  "dim_size s i = s ! i"

definition num_elements :: "TensorShape \<Rightarrow> int64" where
  "num_elements s = fold (\<lambda>dim result. result * dim) s 1"

text \<open>
  Modelled from the spec: \<^verbatim>\<open>Status\<close> is declared in a header that is not among the
  sources. A status is success or a typed failure that carries a message.
\<close>

datatype Status = OK | PreconditionError string | UnknownError string

fun ok :: "Status \<Rightarrow> bool" where
  "ok OK = True"
| "ok (PreconditionError m) = False"
| "ok (UnknownError m) = False"

text \<open>
  Modelled from the spec: the interface \<^verbatim>\<open>Tensor\<close> is declared in a header that is
  not among the sources. A tensor is seen through the getters the code calls:
  \<^verbatim>\<open>dtype()\<close>, \<^verbatim>\<open>shape()\<close>, \<^verbatim>\<open>data()\<close> (the address of its first byte) and
  \<^verbatim>\<open>size()\<close> (its size in bytes, an \<^verbatim>\<open>int64_t\<close>). The contents of memory are not
  modelled: they are only touched by \<^verbatim>\<open>memcpy\<close> and by the transport primitives,
  which are recorded as events.
\<close>

record Tensor =
  t_dtype :: DataType
  t_shape :: TensorShape
  t_data :: int64
  t_size :: int64

text \<open>
  Modelled from the spec: \<^verbatim>\<open>TensorTableEntry\<close> and \<^verbatim>\<open>Response\<close> are declared in headers
  that are not among the sources; the records have the fields the code reads. A
  response holds the table of extents, \<^verbatim>\<open>tensor_sizes[entry * size + rank]\<close>, and the
  error message. \<open>e_output\<close> is the field
  \<^verbatim>\<open>output\<close>, a shared pointer: \<open>None\<close> while it is null. \<open>framework\<close> stands for
  \<^verbatim>\<open>context->framework()\<close>.
\<close>

record TensorTableEntry =
  tensor :: Tensor
  e_output :: "Tensor option"
  root_rank :: int32
  device :: int32
  framework :: nat

record Response =
  tensor_sizes :: "int64 list"
  error_message :: string

text \<open>
  Modelled from the spec: \<^verbatim>\<open>HorovodGlobalState\<close> is declared in a header that is not
  among the sources. It holds the rank of the process, the size of the group, and the
  address of the fusion buffer of each device and framework
  (\<^verbatim>\<open>fusion_buffer.GetBuffer(device, framework)->AccessData(context)\<close>).
\<close>

record HorovodGlobalState =
  gs_rank :: int32
  gs_size :: int32
  fusion_buffer :: "int32 \<Rightarrow> nat \<Rightarrow> int64"

text \<open>The arguments of one call of \<^verbatim>\<open>DoAllgather\<close>.\<close>

record allgather_call =
  ag_entries :: "TensorTableEntry list"
  ag_recvcounts :: "int32 list"
  ag_displcmnts :: "int32 list"
  ag_entry_component_offsets :: "int64 list list"
  ag_entry_component_sizes :: "int64 list list"
  ag_total_size :: int64
  ag_element_size :: int32

text \<open>
  Every call that leaves the file is an event of the trace: the timeline, the
  allocation of an output (the index of the entry and the shape asked for),
  \<^verbatim>\<open>memcpy\<close> (destination, source, length) and the two transport primitives
  (for the broadcast: the entries, the data pointer, the count, the data type and the
  root rank).
\<close>

datatype event =
    ActivityStartAll "TensorTableEntry list" string
  | ActivityEndAll "TensorTableEntry list"
  | AllocateOutput nat TensorShape
  | Memcpy int64 int64 int64
  | DoAllgather allgather_call
  | DoBroadcast "TensorTableEntry list" int64 int32 DataType int32

text \<open>
  Modelled from the spec: the collaborators an operation calls are declared in headers
  that are not among the sources. \<open>allocate_output ec shape\<close> is the call
  \<^verbatim>\<open>e.context->AllocateOutput(shape, &e.output)\<close> for the entry of index \<open>ec\<close>: it
  gives the status and the pointer left in \<^verbatim>\<open>e.output\<close>. \<open>get_element_size\<close> is
  \<^verbatim>\<open>GetElementSize\<close>. The transport primitives \<^verbatim>\<open>DoAllgather\<close> and
  \<^verbatim>\<open>DoBroadcast\<close> report success or failure, as section 6 of the spec has it; the
  code calls them as statements.
\<close>

record collaborators =
  allocate_output :: "nat \<Rightarrow> TensorShape \<Rightarrow> Status \<times> Tensor option"
  get_element_size :: "DataType \<Rightarrow> int32"
  do_allgather :: "allgather_call \<Rightarrow> Status"
  do_broadcast :: "TensorTableEntry list \<Rightarrow> int64 \<Rightarrow> int32 \<Rightarrow> DataType \<Rightarrow> int32 \<Rightarrow> Status"

text \<open>
  What stops a call without a status: an access outside an array or a vector, a null
  pointer that is dereferenced, an assertion that fails, an array allocated with a
  negative length.
\<close>

datatype fault = OutOfBounds | NullDereference | AssertionFailure | BadArrayLength

text \<open>
  Modelled from the spec: the macro \<^verbatim>\<open>ALLOCATE_OUTPUT\<close>, the label of a timeline
  activity, is defined in a header that is not among the sources; its value is taken
  to be its name.
\<close>

definition ALLOCATE_OUTPUT :: string where
  "ALLOCATE_OUTPUT = ''ALLOCATE_OUTPUT''"

section \<open>Allgather\<close>

text \<open>
  The state of \<^verbatim>\<open>AllgatherOp::Execute\<close>: the entries (their outputs are assigned by
  the allocation), the trace, and the four arrays of the layout.
\<close>

record gather_state =
  g_entries :: "TensorTableEntry list"
  g_trace :: "event list"
  entry_component_sizes :: "int64 list list"
  entry_component_offsets :: "int64 list list"
  recvcounts :: "int32 list"
  displcmnts :: "int32 list"

text \<open>
  Lines 106 to 109: the shape of the tensor without its first extent. A loop
  \<^verbatim>\<open>for (i = a; i < b; ++i)\<close> runs its body over the list \<open>[a..<b]\<close>.
\<close>

definition single_slice_shape :: "TensorShape \<Rightarrow> TensorShape" where
  "single_slice_shape s = fold (\<lambda>i sl. AddDim sl (dim_size s i)) [1..<dims s] []"

text \<open>
  Lines 115 to 121, the loop over the ranks for the entry \<open>ec\<close>. The state is
  \<^verbatim>\<open>total_entry_dimension_size\<close>, \<^verbatim>\<open>recvcounts\<close> and the row
  \<^verbatim>\<open>entry_component_sizes[ec]\<close>. \<^verbatim>\<open>recvcounts[rc] += ...\<close> adds an \<^verbatim>\<open>int64_t\<close> to
  an \<^verbatim>\<open>int\<close>: the sum is taken in \<^verbatim>\<open>int64_t\<close> and narrowed to \<^verbatim>\<open>int\<close>.
\<close>

fun size_loop ::
  "int64 list \<Rightarrow> nat \<Rightarrow> nat \<Rightarrow> int64 \<Rightarrow> nat list \<Rightarrow> int64 \<times> int32 list \<times> int64 list
    \<Rightarrow> fault + (int64 \<times> int32 list \<times> int64 list)" where
  "size_loop ts ec G nel [] s = Inr s"
| "size_loop ts ec G nel (rc # rcs) (dim_total, recv, row) =
     (if ec * G + rc < length ts then
        let component_size = ts ! (ec * G + rc)
        in size_loop ts ec G nel rcs
             (dim_total + component_size,
              recv[rc := ucast ((scast (recv ! rc) :: int64) + component_size * nel)],
              row[rc := component_size * nel])
      else Inl OutOfBounds)"

text \<open>
  How the body of a loop ends: with a fault, with a \<^verbatim>\<open>return\<close> of a status, or by
  going on to the next iteration.
\<close>

datatype 'a flow = Abort fault | Return Status 'a | Continue 'a

text \<open>Lines 102 to 132, the body of the loop over the entries.\<close>

definition entry_body ::
  "(nat \<Rightarrow> TensorShape \<Rightarrow> Status \<times> Tensor option) \<Rightarrow> nat \<Rightarrow> Response \<Rightarrow> nat
    \<Rightarrow> gather_state \<Rightarrow> gather_state flow" where
  "entry_body alloc G response ec st =
     (let e = g_entries st ! ec;
          slice = single_slice_shape (t_shape (tensor e))
      in case size_loop (tensor_sizes response) ec G (num_elements slice) [0..<G]
                (0, recvcounts st, entry_component_sizes st ! ec) of
           Inl f \<Rightarrow> Abort f
         | Inr (total_entry_dimension_size, recv, row) \<Rightarrow>
             let output_shape = AppendShape (AddDim [] total_entry_dimension_size) slice;
                 (status, out) = alloc ec output_shape;
                 st' = st\<lparr>g_entries := (g_entries st)[ec := e\<lparr>e_output := out\<rparr>],
                         g_trace := g_trace st @ [AllocateOutput ec output_shape],
                         entry_component_sizes := (entry_component_sizes st)[ec := row],
                         recvcounts := recv\<rparr>
             in if \<not> ok status then Return status st' else Continue st')"

text \<open>Lines 101 to 133, the loop over the entries.\<close>

fun alloc_loop ::
  "(nat \<Rightarrow> TensorShape \<Rightarrow> Status \<times> Tensor option) \<Rightarrow> nat \<Rightarrow> Response \<Rightarrow> nat list
    \<Rightarrow> gather_state \<Rightarrow> gather_state flow" where
  "alloc_loop alloc G response [] st = Continue st"
| "alloc_loop alloc G response (ec # ecs) st =
     (case entry_body alloc G response ec st of
        Continue st' \<Rightarrow> alloc_loop alloc G response ecs st'
      | Return status st' \<Rightarrow> Return status st'
      | Abort f \<Rightarrow> Abort f)"

text \<open>Lines 136 to 142, the displacement of each rank.\<close>

fun displ_loop :: "int32 list \<Rightarrow> nat list \<Rightarrow> int32 list \<Rightarrow> int32 list" where
  "displ_loop recv [] displ = displ"
| "displ_loop recv (rc # rcs) displ =
     displ_loop recv rcs
       (if rc = 0 then displ[rc := 0]
        else displ[rc := displ ! (rc - 1) + recv ! (rc - 1)])"

text \<open>
  Lines 146 to 154, the loop over the entries for the rank \<open>rc\<close>;
  \<^verbatim>\<open>rank_displacement\<close> is an \<^verbatim>\<open>unsigned int\<close>, widened to \<^verbatim>\<open>int64_t\<close> by zero
  extension.
\<close>

fun offset_inner ::
  "int64 list list \<Rightarrow> int32 \<Rightarrow> nat \<Rightarrow> nat list \<Rightarrow> int64 list list \<Rightarrow> int64 list list" where
  "offset_inner sizes rank_displacement rc [] offs = offs"
| "offset_inner sizes rank_displacement rc (ec # ecs) offs =
     offset_inner sizes rank_displacement rc ecs
       (if ec = 0 then offs[ec := (offs ! ec)[rc := ucast rank_displacement]]
        else offs[ec := (offs ! ec)[rc := offs ! (ec - 1) ! rc + sizes ! (ec - 1) ! rc]])"

text \<open>Lines 144 to 156, the loop over the ranks; \<open>n\<close> is \<^verbatim>\<open>entries.size()\<close>.\<close>

fun offset_outer ::
  "int64 list list \<Rightarrow> int32 list \<Rightarrow> nat \<Rightarrow> nat list \<Rightarrow> int32 \<times> int64 list list
    \<Rightarrow> int32 \<times> int64 list list" where
  "offset_outer sizes recv n [] s = s"
| "offset_outer sizes recv n (rc # rcs) (rank_displacement, offs) =
     offset_outer sizes recv n rcs
       (rank_displacement + recv ! rc,
        offset_inner sizes rank_displacement rc [0..<n] offs)"

text \<open>
  \<^verbatim>\<open>AllgatherOp::Execute\<close>, lines 80 to 167. The arrays are allocated with
  \<^verbatim>\<open>global_state_->size\<close> zeros, \<^verbatim>\<open>entries[0]\<close> is read before the first event, and
  \<^verbatim>\<open>displcmnts[size - 1]\<close> is read after the loops. The status the transport
  primitive reports is not used.
\<close>

definition AllgatherOp_Execute ::
  "collaborators \<Rightarrow> HorovodGlobalState \<Rightarrow> event list \<Rightarrow> TensorTableEntry list \<Rightarrow> Response
    \<Rightarrow> fault + (Status \<times> gather_state)" where
  "AllgatherOp_Execute env gs trace entries response =
     (if sint (gs_size gs) < 0 then Inl BadArrayLength
      else if entries = [] then Inl OutOfBounds
      else
        let G = nat (sint (gs_size gs));
            n = length entries;
            first_entry = entries ! 0;
            st0 = \<lparr>g_entries = entries,
                   g_trace = trace @ [ActivityStartAll entries ALLOCATE_OUTPUT],
                   entry_component_sizes = replicate n (replicate G 0),
                   entry_component_offsets = replicate n (replicate G 0),
                   recvcounts = replicate G 0,
                   displcmnts = replicate G 0\<rparr>
        in case alloc_loop (allocate_output env) G response [0..<n] st0 of
             Abort f \<Rightarrow> Inl f
           | Return status st \<Rightarrow> Inr (status, st)
           | Continue st1 \<Rightarrow>
               let st2 = st1\<lparr>g_trace := g_trace st1 @ [ActivityEndAll (g_entries st1)]\<rparr>;
                   st3 = st2\<lparr>displcmnts := displ_loop (recvcounts st2) [0..<G] (displcmnts st2)\<rparr>;
                   st4 = st3\<lparr>entry_component_offsets :=
                            snd (offset_outer (entry_component_sizes st3) (recvcounts st3) n
                                   [0..<G] (0, entry_component_offsets st3))\<rparr>;
                   element_size = get_element_size env (t_dtype (tensor first_entry))
               in if G = 0 then Inl OutOfBounds
                  else
                    let total_size = (scast (displcmnts st4 ! (G - 1) + recvcounts st4 ! (G - 1)) :: int64);
                        call = \<lparr>ag_entries = g_entries st4,
                                ag_recvcounts = recvcounts st4,
                                ag_displcmnts = displcmnts st4,
                                ag_entry_component_offsets = entry_component_offsets st4,
                                ag_entry_component_sizes = entry_component_sizes st4,
                                ag_total_size = total_size,
                                ag_element_size = element_size\<rparr>;
                        reported = do_allgather env call
                    in Inr (OK, st4\<lparr>g_trace := g_trace st4 @ [DoAllgather call]\<rparr>))"

section \<open>Allreduce: staging in the fusion buffer\<close>

text \<open>\<^verbatim>\<open>AllreduceOp::NumElements\<close>, lines 27 to 33.\<close>

definition NumElements :: "TensorTableEntry list \<Rightarrow> int64" where
  "NumElements entries = fold (\<lambda>e n. n + num_elements (t_shape (tensor e))) entries 0"

text \<open>
  \<^verbatim>\<open>MemcpyEntryInFusionBuffer\<close> and \<^verbatim>\<open>MemcpyEntryOutFusionBuffer\<close>, lines 65 to 75:
  one \<^verbatim>\<open>memcpy\<close> each. The second one dereferences \<^verbatim>\<open>e.output\<close>.
\<close>

definition MemcpyEntryInFusionBuffer ::
  "int64 \<Rightarrow> TensorTableEntry \<Rightarrow> TensorTableEntry list \<Rightarrow> event list \<Rightarrow> event list" where
  "MemcpyEntryInFusionBuffer buffer_data_at_offset e entries trace =
     trace @ [Memcpy buffer_data_at_offset (t_data (tensor e)) (t_size (tensor e))]"

definition MemcpyEntryOutFusionBuffer ::
  "int64 \<Rightarrow> TensorTableEntry \<Rightarrow> TensorTableEntry list \<Rightarrow> event list \<Rightarrow> fault + event list" where
  "MemcpyEntryOutFusionBuffer buffer_data_at_offset e entries trace =
     (case e_output e of
        None \<Rightarrow> Inl NullDereference
      | Some out \<Rightarrow> Inr (trace @ [Memcpy (t_data out) buffer_data_at_offset (t_size (tensor e))]))"

text \<open>Lines 43 to 48, the loop of \<^verbatim>\<open>MemcpyInFusionBuffer\<close> over the entries.\<close>

fun memcpy_in_loop ::
  "TensorTableEntry list \<Rightarrow> int64 \<Rightarrow> TensorTableEntry list \<Rightarrow> int64 \<times> event list
    \<Rightarrow> int64 \<times> event list" where
  "memcpy_in_loop entries buffer_data [] s = s"
| "memcpy_in_loop entries buffer_data (e # es) (offset, trace) =
     memcpy_in_loop entries buffer_data es
       (offset + t_size (tensor e),
        MemcpyEntryInFusionBuffer (buffer_data + offset) e entries trace)"

text \<open>
  The three references \<^verbatim>\<open>MemcpyInFusionBuffer\<close> assigns: \<^verbatim>\<open>fused_input_data\<close>,
  \<^verbatim>\<open>buffer_data\<close> and \<^verbatim>\<open>buffer_len\<close>.
\<close>

record fusion_refs =
  r_fused_input_data :: int64
  r_buffer_data :: int64
  r_buffer_len :: int64

text \<open>\<^verbatim>\<open>AllreduceOp::MemcpyInFusionBuffer\<close>, lines 35 to 54.\<close>

definition MemcpyInFusionBuffer ::
  "HorovodGlobalState \<Rightarrow> TensorTableEntry list \<Rightarrow> event list \<Rightarrow> fault + (fusion_refs \<times> event list)" where
  "MemcpyInFusionBuffer gs entries trace =
     (if entries = [] then Inl OutOfBounds
      else
        let first_entry = entries ! 0;
            buf = fusion_buffer gs (device first_entry) (framework first_entry);
            (offset, trace') = memcpy_in_loop entries buf entries (0, trace)
        in Inr (\<lparr>r_fused_input_data = buf, r_buffer_data = buf, r_buffer_len = offset\<rparr>, trace'))"

text \<open>\<^verbatim>\<open>AllreduceOp::MemcpyOutFusionBuffer\<close>, lines 56 to 63.\<close>

fun memcpy_out_loop ::
  "TensorTableEntry list \<Rightarrow> int64 \<Rightarrow> TensorTableEntry list \<Rightarrow> int64 \<times> event list
    \<Rightarrow> fault + (int64 \<times> event list)" where
  "memcpy_out_loop entries buffer_data [] s = Inr s"
| "memcpy_out_loop entries buffer_data (e # es) (offset, trace) =
     (case MemcpyEntryOutFusionBuffer (buffer_data + offset) e entries trace of
        Inl f \<Rightarrow> Inl f
      | Inr trace' \<Rightarrow>
          memcpy_out_loop entries buffer_data es (offset + t_size (tensor e), trace'))"

definition MemcpyOutFusionBuffer ::
  "TensorTableEntry list \<Rightarrow> int64 \<Rightarrow> event list \<Rightarrow> fault + event list" where
  "MemcpyOutFusionBuffer entries buffer_data trace =
     (case memcpy_out_loop entries buffer_data entries (0, trace) of
        Inl f \<Rightarrow> Inl f
      | Inr (offset, trace') \<Rightarrow> Inr trace')"

section \<open>Broadcast and Error\<close>

text \<open>
  \<^verbatim>\<open>BroadcastOp::Execute\<close>, lines 171 to 186, with the assertion enabled. The count
  is the number of elements narrowed to \<^verbatim>\<open>int\<close>. The status the transport primitive
  reports is not used. The result is the status, the entries and the trace.
\<close>

definition BroadcastOp_Execute ::
  "collaborators \<Rightarrow> HorovodGlobalState \<Rightarrow> event list \<Rightarrow> TensorTableEntry list \<Rightarrow> Response
    \<Rightarrow> fault + (Status \<times> TensorTableEntry list \<times> event list)" where
  "BroadcastOp_Execute env gs trace entries response =
     (if length entries \<noteq> 1 then Inl AssertionFailure
      else
        let e = entries ! 0
        in case (if gs_rank gs = root_rank e then Inr (t_data (tensor e))
                 else (case e_output e of
                         None \<Rightarrow> Inl NullDereference
                       | Some out \<Rightarrow> Inr (t_data out))) of
             Inl f \<Rightarrow> Inl f
           | Inr data_ptr \<Rightarrow>
               let count = (ucast (num_elements (t_shape (tensor e))) :: int32);
                   reported = do_broadcast env entries data_ptr count
                                (t_dtype (tensor e)) (root_rank e)
               in Inr (OK, entries,
                       trace @ [DoBroadcast entries data_ptr count
                                  (t_dtype (tensor e)) (root_rank e)]))"

text \<open>\<^verbatim>\<open>BroadcastOp::Enabled\<close>, lines 188 to 192.\<close>

definition BroadcastOp_Enabled :: "'p \<Rightarrow> TensorTableEntry list \<Rightarrow> Response \<Rightarrow> bool" where
  "BroadcastOp_Enabled param_manager entries response = True"

text \<open>\<^verbatim>\<open>ErrorOp::Execute\<close>, lines 196 to 200, with the assertion enabled.\<close>

definition ErrorOp_Execute ::
  "collaborators \<Rightarrow> HorovodGlobalState \<Rightarrow> event list \<Rightarrow> TensorTableEntry list \<Rightarrow> Response
    \<Rightarrow> fault + (Status \<times> TensorTableEntry list \<times> event list)" where
  "ErrorOp_Execute env gs trace entries response =
     (if length entries \<noteq> 1 then Inl AssertionFailure
      else
        let e = entries ! 0
        in Inr (PreconditionError (error_message response), entries, trace))"

section \<open>A transport call that does not return\<close>

text \<open>
  Modelled from the spec: how a call of a transport primitive ends. \<^verbatim>\<open>DoAllgather\<close> and
  \<^verbatim>\<open>DoBroadcast\<close> are declared in a header that is not among the sources. The code
  calls them as statements (lines 162 to 164 and line 183): it reads no value of
  theirs, and the next statement is \<^verbatim>\<open>return Status::OK()\<close>. A call that completes
  returns to \<^verbatim>\<open>Execute\<close>. A call that fails does not return to \<^verbatim>\<open>Execute\<close>: the
  failure leaves \<^verbatim>\<open>Execute\<close> with the message the transport layer supplies
  (section 7 of the spec). The call is given as the event that records it.
\<close>

datatype transport_outcome = Completes | Fails string

type_synonym transport = "event \<Rightarrow> transport_outcome"

text \<open>
  How a call of \<^verbatim>\<open>Execute\<close> ends: it returns, or the failure of a transport call
  leaves it, or a fault stops it.
\<close>

datatype 'a ending = Returns 'a | Leaves string | Faults fault

text \<open>
  \<^verbatim>\<open>BroadcastOp::Execute\<close>, lines 171 to 186, with the assertion enabled and a call
  of \<^verbatim>\<open>DoBroadcast\<close> that may fail.
\<close>

definition BroadcastOp_Execute_transport ::
  "transport \<Rightarrow> HorovodGlobalState \<Rightarrow> event list \<Rightarrow> TensorTableEntry list \<Rightarrow> Response
    \<Rightarrow> (Status \<times> TensorTableEntry list \<times> event list) ending" where
  "BroadcastOp_Execute_transport transport gs trace entries response =
     (if length entries \<noteq> 1 then Faults AssertionFailure
      else
        let e = entries ! 0
        in case (if gs_rank gs = root_rank e then Inr (t_data (tensor e))
                 else (case e_output e of
                         None \<Rightarrow> Inl NullDereference
                       | Some out \<Rightarrow> Inr (t_data out))) of
             Inl f \<Rightarrow> Faults f
           | Inr data_ptr \<Rightarrow>
               let count = (ucast (num_elements (t_shape (tensor e))) :: int32);
                   call = DoBroadcast entries data_ptr count (t_dtype (tensor e)) (root_rank e)
               in case transport call of
                    Fails m \<Rightarrow> Leaves m
                  | Completes \<Rightarrow> Returns (OK, entries, trace @ [call]))"

text \<open>
  \<^verbatim>\<open>AllgatherOp::Execute\<close>, lines 80 to 167, with a call of \<^verbatim>\<open>DoAllgather\<close> that
  may fail.
\<close>

definition AllgatherOp_Execute_transport ::
  "collaborators \<Rightarrow> transport \<Rightarrow> HorovodGlobalState \<Rightarrow> event list \<Rightarrow> TensorTableEntry list
    \<Rightarrow> Response \<Rightarrow> (Status \<times> gather_state) ending" where
  "AllgatherOp_Execute_transport env transport gs trace entries response =
     (if sint (gs_size gs) < 0 then Faults BadArrayLength
      else if entries = [] then Faults OutOfBounds
      else
        let G = nat (sint (gs_size gs));
            n = length entries;
            first_entry = entries ! 0;
            st0 = \<lparr>g_entries = entries,
                   g_trace = trace @ [ActivityStartAll entries ALLOCATE_OUTPUT],
                   entry_component_sizes = replicate n (replicate G 0),
                   entry_component_offsets = replicate n (replicate G 0),
                   recvcounts = replicate G 0,
                   displcmnts = replicate G 0\<rparr>
        in case alloc_loop (allocate_output env) G response [0..<n] st0 of
             Abort f \<Rightarrow> Faults f
           | Return status st \<Rightarrow> Returns (status, st)
           | Continue st1 \<Rightarrow>
               let st2 = st1\<lparr>g_trace := g_trace st1 @ [ActivityEndAll (g_entries st1)]\<rparr>;
                   st3 = st2\<lparr>displcmnts := displ_loop (recvcounts st2) [0..<G] (displcmnts st2)\<rparr>;
                   st4 = st3\<lparr>entry_component_offsets :=
                            snd (offset_outer (entry_component_sizes st3) (recvcounts st3) n
                                   [0..<G] (0, entry_component_offsets st3))\<rparr>;
                   element_size = get_element_size env (t_dtype (tensor first_entry))
               in if G = 0 then Faults OutOfBounds
                  else
                    let total_size = (scast (displcmnts st4 ! (G - 1) + recvcounts st4 ! (G - 1)) :: int64);
                        call = \<lparr>ag_entries = g_entries st4,
                                ag_recvcounts = recvcounts st4,
                                ag_displcmnts = displcmnts st4,
                                ag_entry_component_offsets = entry_component_offsets st4,
                                ag_entry_component_sizes = entry_component_sizes st4,
                                ag_total_size = total_size,
                                ag_element_size = element_size\<rparr>
                    in case transport (DoAllgather call) of
                         Fails m \<Rightarrow> Leaves m
                       | Completes \<Rightarrow>
                           Returns (OK, st4\<lparr>g_trace := g_trace st4 @ [DoAllgather call]\<rparr>))"

section \<open>Notions used to state the properties\<close>

text \<open>
  The sum of the byte sizes of the first \<open>i\<close> entries of a batch, in \<^verbatim>\<open>int64_t\<close>.
\<close>

definition prior_bytes :: "TensorTableEntry list \<Rightarrow> nat \<Rightarrow> int64" where
  "prior_bytes entries i = sum_list (map (\<lambda>e. t_size (tensor e)) (take i entries))"

text \<open>
  An entry of a reduction: \<open>count\<close> elements of a type of 4 bytes, the input at the
  address \<open>inp\<close>, the output at the address \<open>outp\<close>.
\<close>

definition reduction_entry :: "int64 \<Rightarrow> int64 \<Rightarrow> int64 \<Rightarrow> TensorTableEntry" where
  "reduction_entry count inp outp =
     \<lparr>tensor = \<lparr>t_dtype = 0, t_shape = [count], t_data = inp, t_size = 4 * count\<rparr>,
      e_output = Some \<lparr>t_dtype = 0, t_shape = [count], t_data = outp, t_size = 4 * count\<rparr>,
      root_rank = 0, device = 0, framework = 0\<rparr>"

text \<open>
  An entry of a broadcast with root rank 0: a vector of \<open>count\<close> bytes, the input at
  the address 1000, the output at the address 2000.
\<close>

definition broadcast_entry :: "int64 \<Rightarrow> TensorTableEntry" where
  "broadcast_entry count =
     \<lparr>tensor = \<lparr>t_dtype = 0, t_shape = [count], t_data = 1000, t_size = count\<rparr>,
      e_output = Some \<lparr>t_dtype = 0, t_shape = [count], t_data = 2000, t_size = count\<rparr>,
      root_rank = 0, device = 0, framework = 0\<rparr>"

text \<open>
  Collaborators that always succeed: every output is allocated (at the address 3000,
  with the shape asked for), an element has 4 bytes, the transport reports success.
\<close>

definition succeeding :: collaborators where
  "succeeding =
     \<lparr>allocate_output =
        (\<lambda>ec shape. (OK, Some \<lparr>t_dtype = 0, t_shape = shape, t_data = 3000, t_size = 0\<rparr>)),
      get_element_size = (\<lambda>dtype. 4),
      do_allgather = (\<lambda>call. OK),
      do_broadcast = (\<lambda>entries data_ptr count dtype root. OK)\<rparr>"

text \<open>A transport whose every call completes, and one whose every call fails.\<close>

definition completing_transport :: transport where
  "completing_transport = (\<lambda>call. Completes)"


text \<open>The process of rank \<open>r\<close> in a group of \<open>g\<close> processes.\<close>

definition process :: "int32 \<Rightarrow> int32 \<Rightarrow> HorovodGlobalState" where
  "process r g = \<lparr>gs_rank = r, gs_size = g, fusion_buffer = (\<lambda>dev fw. 4096)\<rparr>"

text \<open>A response with the table of sizes \<open>ts\<close> and no error message.\<close>

definition sizes_response :: "int64 list \<Rightarrow> Response" where
  "sizes_response ts = \<lparr>tensor_sizes = ts, error_message = []\<rparr>"

text \<open>
  The size of the component of the entry \<open>e\<close> that the rank \<open>rc\<close> contributes: the
  extent the table of the response gives for the rank, times the element count of the
  slice shape of the entry, in \<^verbatim>\<open>int64_t\<close>. \<open>G\<close> is the size of the group.
\<close>

definition component_size :: "Response \<Rightarrow> nat \<Rightarrow> TensorTableEntry list \<Rightarrow> nat \<Rightarrow> nat \<Rightarrow> int64" where
  "component_size response G entries e rc =
     tensor_sizes response ! (e * G + rc)
       * num_elements (single_slice_shape (t_shape (tensor (entries ! e))))"

text \<open>
  The shape of the output of the entry \<open>e\<close>: the sum of the extents of all ranks,
  then the slice shape.
\<close>

definition output_shape_of :: "Response \<Rightarrow> nat \<Rightarrow> TensorTableEntry list \<Rightarrow> nat \<Rightarrow> TensorShape" where
  "output_shape_of response G entries e =
     (\<Sum>rc<G. tensor_sizes response ! (e * G + rc))
       # single_slice_shape (t_shape (tensor (entries ! e)))"

text \<open>
  The state of \<^verbatim>\<open>AllgatherOp::Execute\<close> once the loop over the entries has run
  its body for the first \<open>k\<close> entries, in closed form.
\<close>

definition gather_after ::
  "(nat \<Rightarrow> TensorShape \<Rightarrow> Status \<times> Tensor option) \<Rightarrow> nat \<Rightarrow> Response \<Rightarrow> TensorTableEntry list
    \<Rightarrow> event list \<Rightarrow> nat \<Rightarrow> gather_state" where
  "gather_after alloc G response entries trace k =
     \<lparr>g_entries =
        map (\<lambda>i. if i < k
                  then (entries ! i)\<lparr>e_output := snd (alloc i (output_shape_of response G entries i))\<rparr>
                  else entries ! i) [0..<length entries],
      g_trace = trace @ ActivityStartAll entries ALLOCATE_OUTPUT
                  # map (\<lambda>i. AllocateOutput i (output_shape_of response G entries i)) [0..<k],
      entry_component_sizes =
        map (\<lambda>e. if e < k then map (component_size response G entries e) [0..<G]
                  else replicate G 0) [0..<length entries],
      entry_component_offsets = replicate (length entries) (replicate G 0),
      recvcounts = map (\<lambda>rc. \<Sum>e<k. ucast (component_size response G entries e rc)) [0..<G],
      displcmnts = replicate G 0\<rparr>"

text \<open>The size of the group as a number.\<close>

definition group_size :: "HorovodGlobalState \<Rightarrow> nat" where
  "group_size gs = nat (sint (gs_size gs))"

text \<open>
  What \<^verbatim>\<open>AllgatherOp::Execute\<close> expects of its caller: a group of at least one
  process, a batch that is not empty, and a table with an extent for every entry and
  every rank.
\<close>

definition gather_ready :: "HorovodGlobalState \<Rightarrow> TensorTableEntry list \<Rightarrow> Response \<Rightarrow> bool" where
  "gather_ready gs entries response \<longleftrightarrow>
     0 < sint (gs_size gs) \<and> entries \<noteq> []
     \<and> length entries * group_size gs \<le> length (tensor_sizes response)"

text \<open>The output of every entry of the batch can be allocated.\<close>

definition allocations_succeed ::
  "collaborators \<Rightarrow> HorovodGlobalState \<Rightarrow> TensorTableEntry list \<Rightarrow> Response \<Rightarrow> bool" where
  "allocations_succeed env gs entries response \<longleftrightarrow>
     (\<forall>i<length entries.
        ok (fst (allocate_output env i (output_shape_of response (group_size gs) entries i))))"

text \<open>The calls of the transport primitive of the gather in a trace, and the timeline
  activities a trace closes.\<close>

fun allgather_calls :: "event list \<Rightarrow> allgather_call list" where
  "allgather_calls [] = []"
| "allgather_calls (DoAllgather call # evs) = call # allgather_calls evs"
| "allgather_calls (ev # evs) = allgather_calls evs"

fun activity_ends :: "event list \<Rightarrow> event list" where
  "activity_ends [] = []"
| "activity_ends (ActivityEndAll es # evs) = ActivityEndAll es # activity_ends evs"
| "activity_ends (ev # evs) = activity_ends evs"

text \<open>
  The state in which \<^verbatim>\<open>AllgatherOp::Execute\<close> returns when every output was
  allocated, in closed form.
\<close>

definition gather_result ::
  "collaborators \<Rightarrow> HorovodGlobalState \<Rightarrow> event list \<Rightarrow> TensorTableEntry list \<Rightarrow> Response
    \<Rightarrow> gather_state" where
  "gather_result env gs trace entries response =
     (let G = group_size gs;
          n = length entries;
          st = gather_after (allocate_output env) G response entries trace n;
          displ = map (\<lambda>rc. \<Sum>i<rc. recvcounts st ! i) [0..<G];
          offs = map (\<lambda>e. map (\<lambda>rc. ucast (\<Sum>i<rc. recvcounts st ! i)
                                        + (\<Sum>j<e. entry_component_sizes st ! j ! rc)) [0..<G])
                   [0..<n];
          call = \<lparr>ag_entries = g_entries st,
                  ag_recvcounts = recvcounts st,
                  ag_displcmnts = displ,
                  ag_entry_component_offsets = offs,
                  ag_entry_component_sizes = entry_component_sizes st,
                  ag_total_size = scast (displ ! (G - 1) + recvcounts st ! (G - 1)),
                  ag_element_size = get_element_size env (t_dtype (tensor (entries ! 0)))\<rparr>
      in st\<lparr>g_trace := g_trace st @ [ActivityEndAll (g_entries st), DoAllgather call],
            entry_component_offsets := offs,
            displcmnts := displ\<rparr>)"

text \<open>The status and the arrays \<^verbatim>\<open>recvcounts\<close>, \<^verbatim>\<open>displcmnts\<close>,
  \<^verbatim>\<open>entry_component_offsets\<close> and \<^verbatim>\<open>entry_component_sizes\<close> of a call that returned.\<close>

definition layout_of ::
  "fault + Status \<times> gather_state
    \<Rightarrow> (Status \<times> int32 list \<times> int32 list \<times> int64 list list \<times> int64 list list) option" where
  "layout_of r =
     (case r of
        Inl f \<Rightarrow> None
      | Inr (status, st) \<Rightarrow>
          Some (status, recvcounts st, displcmnts st, entry_component_offsets st,
                entry_component_sizes st))"

text \<open>An entry of a gather: a tensor of the given shape, no output yet.\<close>

definition gather_entry :: "TensorShape \<Rightarrow> TensorTableEntry" where
  "gather_entry shape =
     \<lparr>tensor = \<lparr>t_dtype = 0, t_shape = shape, t_data = 1000, t_size = 0\<rparr>,
      e_output = None, root_rank = 0, device = 0, framework = 0\<rparr>"

text \<open>The allocations a trace records, and the trace of a call that returned.\<close>

fun allocations :: "event list \<Rightarrow> (nat \<times> TensorShape) list" where
  "allocations [] = []"
| "allocations (AllocateOutput ec shape # evs) = (ec, shape) # allocations evs"
| "allocations (ev # evs) = allocations evs"

definition trace_of :: "fault + Status \<times> gather_state \<Rightarrow> event list" where
  "trace_of r = (case r of Inl f \<Rightarrow> [] | Inr (status, st) \<Rightarrow> g_trace st)"

text \<open>Collaborators that cannot allocate the output of the entry \<open>k\<close>.\<close>

definition failing_allocation :: "nat \<Rightarrow> collaborators" where
  "failing_allocation k =
     succeeding\<lparr>allocate_output :=
       (\<lambda>ec shape. if ec = k then (UnknownError ''out of memory'', None)
                    else allocate_output succeeding ec shape)\<rparr>"

text \<open>
  The layout with one component left out. \<open>skip\<close> is a pair of an entry and a rank;
  the sums below run over all components but that one: the receive count of a rank,
  the displacement of a rank, and the offset of the component of an entry at a rank.
\<close>

definition recvcount_without ::
  "Response \<Rightarrow> nat \<Rightarrow> TensorTableEntry list \<Rightarrow> nat \<times> nat \<Rightarrow> nat \<Rightarrow> int32" where
  "recvcount_without response G entries skip rc =
     sum_list (map (\<lambda>e. ucast (component_size response G entries e rc))
                 (filter (\<lambda>e. (e, rc) \<noteq> skip) [0..<length entries]))"

definition displacement_without ::
  "Response \<Rightarrow> nat \<Rightarrow> TensorTableEntry list \<Rightarrow> nat \<times> nat \<Rightarrow> nat \<Rightarrow> int32" where
  "displacement_without response G entries skip rc =
     sum_list (map (recvcount_without response G entries skip) [0..<rc])"

definition offset_without ::
  "Response \<Rightarrow> nat \<Rightarrow> TensorTableEntry list \<Rightarrow> nat \<times> nat \<Rightarrow> nat \<Rightarrow> nat \<Rightarrow> int64" where
  "offset_without response G entries skip e rc =
     ucast (displacement_without response G entries skip rc)
       + sum_list (map (\<lambda>j. component_size response G entries j rc)
                     (filter (\<lambda>j. (j, rc) \<noteq> skip) [0..<e]))"

section \<open>Conversions between the integer types\<close>

lemma narrow_int64_value:
  fixes n :: int64
  assumes "- (2 ^ 31) \<le> sint n" "sint n < 2 ^ 31"
  shows "sint (ucast n :: int32) = sint n"
proof -
  have "sint (ucast n :: int32) = signed_take_bit 31 (uint n)"
    by (simp add: signed_ucast_eq)
  also have "\<dots> = signed_take_bit 31 (take_bit 64 (sint n))"
    by (simp add: uint_sint take_bit_eq_mod)
  also have "\<dots> = signed_take_bit 31 (sint n)"
    by (simp add: signed_take_bit_take_bit)
  also have "\<dots> = sint n"
    using assms by (simp add: signed_take_bit_int_eq_self)
  finally show ?thesis .
qed

lemma ucast_scast_int32: "(ucast (scast (r :: int32) :: int64) :: int32) = r"
  by (rule bit_word_eqI) (auto simp add: bit_ucast_iff bit_signed_iff)

lemma ucast_add_int64: "(ucast (a + b :: int64) :: int32) = ucast a + ucast b"
proof -
  have "(ucast (a + b) :: int32) = word_of_int (uint (a + b))"
    by (rule ucast_eq)
  also have "\<dots> = word_of_int (uint a + uint b)"
    by (simp only: word_of_int_eq_iff uint_word_arith_bintrs take_bit_take_bit) simp
  also have "\<dots> = ucast a + ucast b"
    by simp
  finally show ?thesis .
qed

lemma narrow_sum: "(ucast ((scast (r :: int32) :: int64) + x) :: int32) = r + ucast x"
  by (simp add: ucast_add_int64 ucast_scast_int32)

section \<open>Staging of a reduction in the fusion buffer\<close>

lemma upt_length_Cons: "[0..<length (e # es)] = 0 # map Suc [0..<length es]"
  by (simp add: upt_conv_Cons map_Suc_upt del: upt_Suc)

lemma memcpy_in_loop_closed:
  "memcpy_in_loop entries buf es (offset, trace) =
     (offset + sum_list (map (\<lambda>e. t_size (tensor e)) es),
      trace @ map (\<lambda>i. Memcpy (buf + (offset + sum_list (map (\<lambda>e. t_size (tensor e)) (take i es))))
                            (t_data (tensor (es ! i))) (t_size (tensor (es ! i)))) [0..<length es])"
proof (induction es arbitrary: offset trace)
  case Nil
  then show ?case by simp
next
  case (Cons e es)
  show ?case
    by (simp only: memcpy_in_loop.simps Cons.IH upt_length_Cons)
       (simp add: MemcpyEntryInFusionBuffer_def add.assoc comp_def)
qed

lemma memcpy_out_loop_closed:
  "\<forall>e\<in>set es. e_output e \<noteq> None \<Longrightarrow>
   memcpy_out_loop entries buf es (offset, trace) =
     Inr (offset + sum_list (map (\<lambda>e. t_size (tensor e)) es),
      trace @ map (\<lambda>i. Memcpy (t_data (the (e_output (es ! i))))
                            (buf + (offset + sum_list (map (\<lambda>e. t_size (tensor e)) (take i es))))
                            (t_size (tensor (es ! i)))) [0..<length es])"
proof (induction es arbitrary: offset trace)
  case Nil
  then show ?case by simp
next
  case (Cons e es)
  from Cons.prems obtain out where out: "e_output e = Some out" by auto
  from Cons.prems have rest: "\<forall>e\<in>set es. e_output e \<noteq> None" by simp
  show ?case
    by (simp only: memcpy_out_loop.simps MemcpyEntryOutFusionBuffer_def out option.case sum.case
          Cons.IH [OF rest] upt_length_Cons)
       (simp add: add.assoc comp_def out)
qed

lemma sint_add_in_range64:
  fixes a b :: int64
  assumes "- (2 ^ 63) \<le> sint a + sint b" "sint a + sint b < 2 ^ 63"
  shows "sint (a + b) = sint a + sint b"
proof -
  have "sint (a + b) = signed_take_bit 63 (sint a + sint b)"
    by (simp add: sint_word_ariths)
  also have "\<dots> = sint a + sint b"
    using assms by (rule signed_take_bit_int_eq_self)
  finally show ?thesis .
qed

lemma sint_sum_list_in_range:
  fixes xs :: "int64 list"
  assumes "\<forall>x\<in>set xs. 0 \<le> sint x" "sum_list (map sint xs) < 2 ^ 63"
  shows "sint (sum_list xs) = sum_list (map sint xs)"
  using assms
proof (induction xs)
  case Nil
  show ?case by simp
next
  case (Cons x xs)
  have x: "0 \<le> sint x"
    using Cons.prems(1) by simp
  have rest: "0 \<le> sum_list (map sint xs)"
    using Cons.prems(1) by (intro sum_list_nonneg) auto
  have total: "sint x + sum_list (map sint xs) < 2 ^ 63"
    using Cons.prems(2) by simp
  have less: "sum_list (map sint xs) < 2 ^ 63"
    using x total by linarith
  have IH: "sint (sum_list xs) = sum_list (map sint xs)"
    using Cons.prems(1) less by (intro Cons.IH) simp_all
  have "sint (x + sum_list xs) = sint x + sint (sum_list xs)"
    using x rest total by (intro sint_add_in_range64) (simp_all add: IH)
  then show ?case
    by (simp add: IH)
qed

lemma prior_bytes_exact:
  assumes nonneg: "\<forall>e\<in>set entries. 0 \<le> sint (t_size (tensor e))"
    and total: "sum_list (map (\<lambda>e. sint (t_size (tensor e))) entries) < 2 ^ 63"
  shows "sint (prior_bytes entries i) = sum_list (map (\<lambda>e. sint (t_size (tensor e))) (take i entries))"
proof -
  let ?f = "\<lambda>e. sint (t_size (tensor e))"
  have "sum_list (map ?f entries) = sum_list (map ?f (take i entries)) + sum_list (map ?f (drop i entries))"
    by (metis append_take_drop_id map_append sum_list_append)
  moreover have "0 \<le> sum_list (map ?f (drop i entries))"
    using nonneg by (intro sum_list_nonneg) (auto dest: in_set_dropD)
  ultimately have less: "sum_list (map ?f (take i entries)) < 2 ^ 63"
    using total by linarith
  have "sint (sum_list (map (\<lambda>e. t_size (tensor e)) (take i entries)))
          = sum_list (map sint (map (\<lambda>e. t_size (tensor e)) (take i entries)))"
  proof (rule sint_sum_list_in_range)
    show "\<forall>x\<in>set (map (\<lambda>e. t_size (tensor e)) (take i entries)). 0 \<le> sint x"
      using nonneg by (auto dest: in_set_takeD)
    show "sum_list (map sint (map (\<lambda>e. t_size (tensor e)) (take i entries))) < 2 ^ 63"
      using less by (simp add: comp_def)
  qed
  then show ?thesis
    by (simp add: prior_bytes_def comp_def)
qed

text \<open>
  Claim C4. For a batch that is not empty, \<^verbatim>\<open>MemcpyInFusionBuffer\<close> copies the input
  of the entry \<open>i\<close> to the fusion buffer at the offset \<open>prior_bytes entries i\<close>, the
  sum of the byte sizes of the entries before it, and sets \<^verbatim>\<open>buffer_len\<close> to the sum
  of all byte sizes; \<^verbatim>\<open>MemcpyOutFusionBuffer\<close> copies to the output of the entry
  \<open>i\<close> from the same offset (it dereferences every output). The sums are taken in
  \<^verbatim>\<open>int64_t\<close>; they are the sums of the integers when no size is negative and the
  sizes of the batch sum to less than \<open>2^63\<close>. For three entries of 10, 20 and 5
  elements of 4 bytes the length is 140 and the offsets are 0, 40 and 120.
\<close>

theorem fusion_buffer_tight_packing:
  "(entries \<noteq> [] \<longrightarrow>
      MemcpyInFusionBuffer gs entries trace =
        Inr (\<lparr>r_fused_input_data = fusion_buffer gs (device (entries ! 0)) (framework (entries ! 0)),
              r_buffer_data = fusion_buffer gs (device (entries ! 0)) (framework (entries ! 0)),
              r_buffer_len = prior_bytes entries (length entries)\<rparr>,
             trace @ map (\<lambda>i. Memcpy (fusion_buffer gs (device (entries ! 0)) (framework (entries ! 0))
                                        + prior_bytes entries i)
                                   (t_data (tensor (entries ! i))) (t_size (tensor (entries ! i))))
                       [0..<length entries]))
   \<and> ((\<forall>e\<in>set entries. e_output e \<noteq> None) \<longrightarrow>
      MemcpyOutFusionBuffer entries buf trace =
        Inr (trace @ map (\<lambda>i. Memcpy (t_data (the (e_output (entries ! i))))
                                   (buf + prior_bytes entries i) (t_size (tensor (entries ! i))))
                       [0..<length entries]))
   \<and> ((\<forall>e\<in>set entries. 0 \<le> sint (t_size (tensor e)))
        \<and> sum_list (map (\<lambda>e. sint (t_size (tensor e))) entries) < 2 ^ 63 \<longrightarrow>
      sint (prior_bytes entries i)
        = sum_list (map (\<lambda>e. sint (t_size (tensor e))) (take i entries)))
   \<and> MemcpyInFusionBuffer gs [reduction_entry 10 a1 b1, reduction_entry 20 a2 b2, reduction_entry 5 a3 b3]
        trace =
        Inr (\<lparr>r_fused_input_data = fusion_buffer gs 0 0, r_buffer_data = fusion_buffer gs 0 0,
              r_buffer_len = 140\<rparr>,
             trace @ [Memcpy (fusion_buffer gs 0 0 + 0) a1 40, Memcpy (fusion_buffer gs 0 0 + 40) a2 80,
                      Memcpy (fusion_buffer gs 0 0 + 120) a3 20])
   \<and> MemcpyOutFusionBuffer [reduction_entry 10 a1 b1, reduction_entry 20 a2 b2, reduction_entry 5 a3 b3]
        buf trace =
        Inr (trace @ [Memcpy b1 (buf + 0) 40, Memcpy b2 (buf + 40) 80, Memcpy b3 (buf + 120) 20])"
proof (intro conjI impI)
  assume "entries \<noteq> []"
  then show "MemcpyInFusionBuffer gs entries trace =
        Inr (\<lparr>r_fused_input_data = fusion_buffer gs (device (entries ! 0)) (framework (entries ! 0)),
              r_buffer_data = fusion_buffer gs (device (entries ! 0)) (framework (entries ! 0)),
              r_buffer_len = prior_bytes entries (length entries)\<rparr>,
             trace @ map (\<lambda>i. Memcpy (fusion_buffer gs (device (entries ! 0)) (framework (entries ! 0))
                                        + prior_bytes entries i)
                                   (t_data (tensor (entries ! i))) (t_size (tensor (entries ! i))))
                       [0..<length entries])"
    by (simp add: MemcpyInFusionBuffer_def memcpy_in_loop_closed prior_bytes_def Let_def)
next
  assume "\<forall>e\<in>set entries. e_output e \<noteq> None"
  then show "MemcpyOutFusionBuffer entries buf trace =
        Inr (trace @ map (\<lambda>i. Memcpy (t_data (the (e_output (entries ! i))))
                                   (buf + prior_bytes entries i) (t_size (tensor (entries ! i))))
                       [0..<length entries])"
    by (simp add: MemcpyOutFusionBuffer_def memcpy_out_loop_closed prior_bytes_def)
next
  assume "(\<forall>e\<in>set entries. 0 \<le> sint (t_size (tensor e)))
        \<and> sum_list (map (\<lambda>e. sint (t_size (tensor e))) entries) < 2 ^ 63"
  then show "sint (prior_bytes entries i)
        = sum_list (map (\<lambda>e. sint (t_size (tensor e))) (take i entries))"
    by (intro prior_bytes_exact) simp_all
next
  show "MemcpyInFusionBuffer gs [reduction_entry 10 a1 b1, reduction_entry 20 a2 b2, reduction_entry 5 a3 b3]
        trace =
        Inr (\<lparr>r_fused_input_data = fusion_buffer gs 0 0, r_buffer_data = fusion_buffer gs 0 0,
              r_buffer_len = 140\<rparr>,
             trace @ [Memcpy (fusion_buffer gs 0 0 + 0) a1 40, Memcpy (fusion_buffer gs 0 0 + 40) a2 80,
                      Memcpy (fusion_buffer gs 0 0 + 120) a3 20])"
    by (simp add: MemcpyInFusionBuffer_def MemcpyEntryInFusionBuffer_def reduction_entry_def Let_def)
next
  show "MemcpyOutFusionBuffer [reduction_entry 10 a1 b1, reduction_entry 20 a2 b2, reduction_entry 5 a3 b3]
        buf trace =
        Inr (trace @ [Memcpy b1 (buf + 0) 40, Memcpy b2 (buf + 40) 80, Memcpy b3 (buf + 120) 20])"
    by (simp add: MemcpyOutFusionBuffer_def MemcpyEntryOutFusionBuffer_def reduction_entry_def)
qed

theorem fusion_buffer_tight_packing_witness:
  "MemcpyInFusionBuffer (process 0 2)
      [reduction_entry 10 1000 5000, reduction_entry 20 2000 6000, reduction_entry 5 3000 7000] []
     = Inr (\<lparr>r_fused_input_data = 4096, r_buffer_data = 4096, r_buffer_len = 140\<rparr>,
            [Memcpy 4096 1000 40, Memcpy 4136 2000 80, Memcpy 4216 3000 20])
   \<and> MemcpyOutFusionBuffer
      [reduction_entry 10 1000 5000, reduction_entry 20 2000 6000, reduction_entry 5 3000 7000] 4096 []
     = Inr [Memcpy 5000 4096 40, Memcpy 6000 4136 80, Memcpy 7000 4216 20]
   \<and> sint (prior_bytes
        [reduction_entry 10 1000 5000, reduction_entry 20 2000 6000, reduction_entry 5 3000 7000] 2)
     = 120"
  using fusion_buffer_tight_packing [where
      entries = "[reduction_entry 10 1000 5000, reduction_entry 20 2000 6000, reduction_entry 5 3000 7000]"
      and gs = "process 0 2" and trace = "[]" and buf = 4096 and i = 2]
  by (simp add: prior_bytes_def reduction_entry_def process_def eval_nat_numeral)

section \<open>The Error operation\<close>

text \<open>
  Claim C5. For a batch of one entry and a response that carries the message \<open>m\<close>,
  \<^verbatim>\<open>ErrorOp::Execute\<close> returns the precondition failure with the message \<open>m\<close>; the
  entries are unchanged and no event is added to the trace: nothing is copied,
  allocated or sent.
\<close>

theorem ErrorOp_Execute_returns_message:
  "ErrorOp_Execute env gs trace [e] (response\<lparr>error_message := m\<rparr>)
     = Inr (PreconditionError m, [e], trace)"
  by (simp add: ErrorOp_Execute_def)

section \<open>Allgather: the loop over the entries\<close>

lemma size_loop_append:
  "size_loop ts ec G nel (xs @ ys) s =
     (case size_loop ts ec G nel xs s of Inl f \<Rightarrow> Inl f | Inr s' \<Rightarrow> size_loop ts ec G nel ys s')"
proof (induction xs arbitrary: s)
  case Nil
  show ?case by simp
next
  case (Cons rc rcs)
  obtain t recv row where s: "s = (t, recv, row)" by (cases s)
  show ?case unfolding s by (simp add: Cons.IH Let_def)
qed

lemma size_loop_prefix:
  assumes "k \<le> length recv" "k \<le> length row" "ec * G + k \<le> length ts"
  shows "size_loop ts ec G nel [0..<k] (t, recv, row) =
           Inr (t + (\<Sum>rc<k. ts ! (ec * G + rc)),
                map (\<lambda>rc. if rc < k then recv ! rc + ucast (ts ! (ec * G + rc) * nel) else recv ! rc)
                  [0..<length recv],
                map (\<lambda>rc. if rc < k then ts ! (ec * G + rc) * nel else row ! rc) [0..<length row])"
  using assms
proof (induction k)
  case 0
  show ?case by (simp add: map_nth)
next
  case (Suc k)
  have k: "k < length recv" "k < length row" "ec * G + k < length ts"
    using Suc.prems by simp_all
  have IH: "size_loop ts ec G nel [0..<k] (t, recv, row) =
           Inr (t + (\<Sum>rc<k. ts ! (ec * G + rc)),
                map (\<lambda>rc. if rc < k then recv ! rc + ucast (ts ! (ec * G + rc) * nel) else recv ! rc)
                  [0..<length recv],
                map (\<lambda>rc. if rc < k then ts ! (ec * G + rc) * nel else row ! rc) [0..<length row])"
    using Suc.IH Suc.prems by simp
  have recv: "(map (\<lambda>rc. if rc < k then recv ! rc + ucast (ts ! (ec * G + rc) * nel) else recv ! rc)
                  [0..<length recv])[k := recv ! k + ucast (ts ! (ec * G + k) * nel)]
        = map (\<lambda>rc. if rc < Suc k then recv ! rc + ucast (ts ! (ec * G + rc) * nel) else recv ! rc)
                  [0..<length recv]"
    using k by (intro nth_equalityI) (auto simp: nth_list_update less_Suc_eq)
  have row: "(map (\<lambda>rc. if rc < k then ts ! (ec * G + rc) * nel else row ! rc) [0..<length row])
                 [k := ts ! (ec * G + k) * nel]
        = map (\<lambda>rc. if rc < Suc k then ts ! (ec * G + rc) * nel else row ! rc) [0..<length row]"
    using k by (intro nth_equalityI) (auto simp: nth_list_update less_Suc_eq)
  have nth_k: "map (\<lambda>rc. if rc < k then recv ! rc + ucast (ts ! (ec * G + rc) * nel) else recv ! rc)
                  [0..<length recv] ! k = recv ! k"
    using k by simp
  have "size_loop ts ec G nel [0..<Suc k] (t, recv, row) =
          size_loop ts ec G nel [k]
            (t + (\<Sum>rc<k. ts ! (ec * G + rc)),
             map (\<lambda>rc. if rc < k then recv ! rc + ucast (ts ! (ec * G + rc) * nel) else recv ! rc)
               [0..<length recv],
             map (\<lambda>rc. if rc < k then ts ! (ec * G + rc) * nel else row ! rc) [0..<length row])"
    by (simp only: upt_Suc_append [OF le0] size_loop_append IH sum.case)
  also have "\<dots> =
           Inr (t + (\<Sum>rc<Suc k. ts ! (ec * G + rc)),
                map (\<lambda>rc. if rc < Suc k then recv ! rc + ucast (ts ! (ec * G + rc) * nel) else recv ! rc)
                  [0..<length recv],
                map (\<lambda>rc. if rc < Suc k then ts ! (ec * G + rc) * nel else row ! rc) [0..<length row])"
    unfolding size_loop.simps Let_def narrow_sum nth_k recv row
    using k(3) by (simp add: add.assoc)
  finally show ?case .
qed

lemma size_loop_full:
  assumes "length recv = G" "length row = G" "ec * G + G \<le> length ts"
  shows "size_loop ts ec G nel [0..<G] (0, recv, row) =
           Inr (\<Sum>rc<G. ts ! (ec * G + rc),
                map (\<lambda>rc. recv ! rc + ucast (ts ! (ec * G + rc) * nel)) [0..<G],
                map (\<lambda>rc. ts ! (ec * G + rc) * nel) [0..<G])"
  using assms by (simp add: size_loop_prefix cong: map_cong)

lemma single_slice_shape_eq: "single_slice_shape s = map (\<lambda>i. s ! i) [1..<length s]"
proof -
  have "fold (\<lambda>i sl. sl @ [s ! i]) xs acc = acc @ map (\<lambda>i. s ! i) xs" for xs acc
    by (induction xs arbitrary: acc) simp_all
  then show ?thesis
    by (simp add: single_slice_shape_def AddDim_def dim_size_def dims_def)
qed

lemma entry_body_gather_after:
  assumes k: "k < length entries" and ts: "k * G + G \<le> length (tensor_sizes response)"
  shows "entry_body alloc G response k (gather_after alloc G response entries trace k) =
           (if \<not> ok (fst (alloc k (output_shape_of response G entries k)))
            then Return (fst (alloc k (output_shape_of response G entries k)))
                   (gather_after alloc G response entries trace (Suc k))
            else Continue (gather_after alloc G response entries trace (Suc k)))"
proof -
  let ?st = "gather_after alloc G response entries trace k"
  let ?nel = "num_elements (single_slice_shape (t_shape (tensor (entries ! k))))"
  have e: "g_entries ?st ! k = entries ! k"
    using k by (simp add: gather_after_def)
  have loop: "size_loop (tensor_sizes response) k G ?nel [0..<G]
                 (0, recvcounts ?st, entry_component_sizes ?st ! k) =
           Inr (\<Sum>rc<G. tensor_sizes response ! (k * G + rc),
                map (\<lambda>rc. recvcounts ?st ! rc + ucast (tensor_sizes response ! (k * G + rc) * ?nel)) [0..<G],
                map (\<lambda>rc. tensor_sizes response ! (k * G + rc) * ?nel) [0..<G])"
    using k ts by (intro size_loop_full) (simp_all add: gather_after_def)
  have shape: "AppendShape (AddDim [] (\<Sum>rc<G. tensor_sizes response ! (k * G + rc)))
                 (single_slice_shape (t_shape (tensor (entries ! k))))
               = output_shape_of response G entries k"
    by (simp add: AppendShape_def AddDim_def output_shape_of_def)
  have entries': "(g_entries ?st)[k := (entries ! k)\<lparr>e_output := out\<rparr>]
        = map (\<lambda>i. if i < Suc k
                  then (entries ! i)\<lparr>e_output := if i = k then out else snd (alloc i (output_shape_of response G entries i))\<rparr>
                  else entries ! i) [0..<length entries]" for out
    using k by (intro nth_equalityI) (auto simp: gather_after_def nth_list_update less_Suc_eq)
  have sizes': "(entry_component_sizes ?st)
                   [k := map (\<lambda>rc. tensor_sizes response ! (k * G + rc) * ?nel) [0..<G]]
        = entry_component_sizes (gather_after alloc G response entries trace (Suc k))"
    using k by (intro nth_equalityI)
      (auto simp: gather_after_def nth_list_update less_Suc_eq component_size_def)
  have recv': "map (\<lambda>rc. recvcounts ?st ! rc + ucast (tensor_sizes response ! (k * G + rc) * ?nel)) [0..<G]
        = recvcounts (gather_after alloc G response entries trace (Suc k))"
    by (simp add: gather_after_def component_size_def)
  obtain status out where a: "alloc k (output_shape_of response G entries k) = (status, out)"
    by (cases "alloc k (output_shape_of response G entries k)")
  have st': "?st\<lparr>g_entries := (g_entries ?st)[k := (entries ! k)\<lparr>e_output := out\<rparr>],
                 g_trace := g_trace ?st @ [AllocateOutput k (output_shape_of response G entries k)],
                 entry_component_sizes := entry_component_sizes (gather_after alloc G response entries trace (Suc k)),
                 recvcounts := recvcounts (gather_after alloc G response entries trace (Suc k))\<rparr>
         = gather_after alloc G response entries trace (Suc k)"
    unfolding entries'
    by (simp add: gather_after_def a cong: if_cong)
  show ?thesis
    unfolding entry_body_def e
    by (simp add: loop Let_def shape a sizes' recv' st' del: upt_Suc)
qed

lemma alloc_loop_append:
  "alloc_loop alloc G response (xs @ ys) st =
     (case alloc_loop alloc G response xs st of
        Continue st' \<Rightarrow> alloc_loop alloc G response ys st'
      | Return status st' \<Rightarrow> Return status st'
      | Abort f \<Rightarrow> Abort f)"
  by (induction xs arbitrary: st) (simp_all split: flow.splits)

lemma gather_after_0:
  "gather_after alloc G response entries trace 0 =
     \<lparr>g_entries = entries,
      g_trace = trace @ [ActivityStartAll entries ALLOCATE_OUTPUT],
      entry_component_sizes = replicate (length entries) (replicate G 0),
      entry_component_offsets = replicate (length entries) (replicate G 0),
      recvcounts = replicate G 0,
      displcmnts = replicate G 0\<rparr>"
  by (simp add: gather_after_def map_nth map_replicate_const)

lemma alloc_loop_success:
  assumes "k \<le> length entries" "k * G \<le> length (tensor_sizes response)"
    and "\<forall>i<k. ok (fst (alloc i (output_shape_of response G entries i)))"
  shows "alloc_loop alloc G response [0..<k] (gather_after alloc G response entries trace 0) =
           Continue (gather_after alloc G response entries trace k)"
  using assms
proof (induction k)
  case 0
  show ?case by simp
next
  case (Suc k)
  have IH: "alloc_loop alloc G response [0..<k] (gather_after alloc G response entries trace 0) =
           Continue (gather_after alloc G response entries trace k)"
    using Suc.prems by (intro Suc.IH) (simp_all add: add_leD2)
  have body: "entry_body alloc G response k (gather_after alloc G response entries trace k) =
           Continue (gather_after alloc G response entries trace (Suc k))"
    using Suc.prems by (simp add: entry_body_gather_after)
  show ?case
    by (simp only: upt_Suc_append [OF le0] alloc_loop_append IH flow.case alloc_loop.simps body)
qed

lemma alloc_loop_failure:
  assumes "k < length entries" "Suc k * G \<le> length (tensor_sizes response)"
    and "\<forall>i<k. ok (fst (alloc i (output_shape_of response G entries i)))"
    and "\<not> ok (fst (alloc k (output_shape_of response G entries k)))"
  shows "alloc_loop alloc G response [0..<length entries]
           (gather_after alloc G response entries trace 0) =
           Return (fst (alloc k (output_shape_of response G entries k)))
             (gather_after alloc G response entries trace (Suc k))"
proof -
  have "[0..<k + (length entries - k)] = [0..<k] @ [k..<k + (length entries - k)]"
    by (rule upt_add_eq_append) simp
  then have split: "[0..<length entries] = [0..<k] @ k # [Suc k..<length entries]"
    using assms(1) by (simp add: upt_conv_Cons)
  have pre: "alloc_loop alloc G response [0..<k] (gather_after alloc G response entries trace 0) =
           Continue (gather_after alloc G response entries trace k)"
    using assms by (intro alloc_loop_success) (simp_all add: add_leD2)
  have body: "entry_body alloc G response k (gather_after alloc G response entries trace k) =
           Return (fst (alloc k (output_shape_of response G entries k)))
             (gather_after alloc G response entries trace (Suc k))"
    using assms by (simp add: entry_body_gather_after)
  show ?thesis
    by (simp only: split alloc_loop_append pre flow.case alloc_loop.simps body)
qed

lemma displ_loop_append:
  "displ_loop recv (xs @ ys) d = displ_loop recv ys (displ_loop recv xs d)"
  by (induction xs arbitrary: d) simp_all

lemma displ_loop_prefix:
  assumes "k \<le> length d"
  shows "displ_loop recv [0..<k] d =
           map (\<lambda>rc. if rc < k then (\<Sum>i<rc. recv ! i) else d ! rc) [0..<length d]"
  using assms
proof (induction k)
  case 0
  show ?case by (simp add: map_nth)
next
  case (Suc k)
  let ?d = "map (\<lambda>rc. if rc < k then (\<Sum>i<rc. recv ! i) else d ! rc) [0..<length d]"
  have IH: "displ_loop recv [0..<k] d = ?d"
    using Suc by simp
  have k: "k < length d" using Suc.prems by simp
  have step: "(if k = 0 then ?d[k := 0] else ?d[k := ?d ! (k - 1) + recv ! (k - 1)])
         = map (\<lambda>rc. if rc < Suc k then (\<Sum>i<rc. recv ! i) else d ! rc) [0..<length d]"
  proof (cases k)
    case 0
    then show ?thesis
      using k by (intro nth_equalityI) (auto simp: nth_list_update)
  next
    case (Suc m)
    then show ?thesis
      using k by (intro nth_equalityI) (auto simp: nth_list_update less_Suc_eq)
  qed
  show ?case
    by (simp only: upt_Suc_append [OF le0] displ_loop_append IH displ_loop.simps step)
qed

lemma displ_loop_full:
  "length d = G \<Longrightarrow> displ_loop recv [0..<G] d = map (\<lambda>rc. \<Sum>i<rc. recv ! i) [0..<G]"
  by (simp add: displ_loop_prefix cong: map_cong)

lemma offset_inner_append:
  "offset_inner sizes rd rc (xs @ ys) offs =
     offset_inner sizes rd rc ys (offset_inner sizes rd rc xs offs)"
  by (induction xs arbitrary: offs) simp_all

lemma offset_inner_prefix:
  assumes "k \<le> length offs" "\<forall>e<length offs. rc < length (offs ! e)"
  shows "offset_inner sizes rd rc [0..<k] offs =
           map (\<lambda>e. if e < k then (offs ! e)[rc := ucast rd + (\<Sum>j<e. sizes ! j ! rc)]
                     else offs ! e) [0..<length offs]"
  using assms(1)
proof (induction k)
  case 0
  show ?case by (simp add: map_nth)
next
  case (Suc k)
  let ?cur = "map (\<lambda>e. if e < k then (offs ! e)[rc := ucast rd + (\<Sum>j<e. sizes ! j ! rc)]
                     else offs ! e) [0..<length offs]"
  have IH: "offset_inner sizes rd rc [0..<k] offs = ?cur"
    using Suc by simp
  have k: "k < length offs" using Suc.prems by simp
  have step: "(if k = 0 then ?cur[k := (?cur ! k)[rc := ucast rd]]
               else ?cur[k := (?cur ! k)[rc := ?cur ! (k - 1) ! rc + sizes ! (k - 1) ! rc]])
         = map (\<lambda>e. if e < Suc k then (offs ! e)[rc := ucast rd + (\<Sum>j<e. sizes ! j ! rc)]
                     else offs ! e) [0..<length offs]"
  proof (cases k)
    case 0
    then show ?thesis
      using k by (intro nth_equalityI) (auto simp: nth_list_update)
  next
    case (Suc m)
    have m: "m < length offs" "rc < length (offs ! m)"
      using k Suc assms(2) by simp_all
    have prev: "?cur ! (k - 1) ! rc = ucast rd + (\<Sum>j<m. sizes ! j ! rc)"
      using m Suc by simp
    have cur: "?cur ! k = offs ! k"
      using k by simp
    show ?thesis
      unfolding prev cur
      using k Suc by (intro nth_equalityI) (auto simp: nth_list_update less_Suc_eq add.assoc)
  qed
  show ?case
    by (simp only: upt_Suc_append [OF le0] offset_inner_append IH offset_inner.simps step)
qed

lemma offset_outer_append:
  "offset_outer sizes recv n (xs @ ys) s =
     offset_outer sizes recv n ys (offset_outer sizes recv n xs s)"
proof (induction xs arbitrary: s)
  case Nil
  show ?case by simp
next
  case (Cons rc rcs)
  obtain rd offs where s: "s = (rd, offs)" by (cases s)
  show ?case unfolding s by (simp add: Cons.IH)
qed

lemma offset_outer_prefix:
  assumes "k \<le> G" "length offs = n" "\<forall>e<n. length (offs ! e) = G"
  shows "offset_outer sizes recv n [0..<k] (rd, offs) =
           (rd + (\<Sum>i<k. recv ! i),
            map (\<lambda>e. map (\<lambda>rc. if rc < k
                                then ucast (rd + (\<Sum>i<rc. recv ! i)) + (\<Sum>j<e. sizes ! j ! rc)
                                else offs ! e ! rc) [0..<G]) [0..<n])"
  using assms(1)
proof (induction k)
  case 0
  have "map (\<lambda>e. map (\<lambda>rc. offs ! e ! rc) [0..<G]) [0..<n] = offs"
    using assms(2,3) by (intro nth_equalityI) (simp_all add: map_nth)
  then show ?case by simp
next
  case (Suc k)
  let ?cur = "map (\<lambda>e. map (\<lambda>rc. if rc < k
                                then ucast (rd + (\<Sum>i<rc. recv ! i)) + (\<Sum>j<e. sizes ! j ! rc)
                                else offs ! e ! rc) [0..<G]) [0..<n]"
  let ?rd = "rd + (\<Sum>i<k. recv ! i)"
  have IH: "offset_outer sizes recv n [0..<k] (rd, offs) = (?rd, ?cur)"
    using Suc by simp
  have k: "k < G" using Suc.prems by simp
  have inner: "offset_inner sizes ?rd k [0..<n] ?cur =
           map (\<lambda>e. if e < n then (?cur ! e)[k := ucast ?rd + (\<Sum>j<e. sizes ! j ! k)]
                     else ?cur ! e) [0..<length ?cur]"
    using k by (intro offset_inner_prefix) simp_all
  have step: "offset_inner sizes ?rd k [0..<n] ?cur =
            map (\<lambda>e. map (\<lambda>rc. if rc < Suc k
                                then ucast (rd + (\<Sum>i<rc. recv ! i)) + (\<Sum>j<e. sizes ! j ! rc)
                                else offs ! e ! rc) [0..<G]) [0..<n]"
    unfolding inner
    using k by (intro nth_equalityI) (auto simp: nth_list_update less_Suc_eq)
  show ?case
    by (simp only: upt_Suc_append [OF le0] offset_outer_append IH offset_outer.simps step)
       (simp add: add.assoc)
qed

lemma offset_outer_full:
  assumes "length offs = n" "\<forall>e<n. length (offs ! e) = G"
  shows "snd (offset_outer sizes recv n [0..<G] (0, offs)) =
           map (\<lambda>e. map (\<lambda>rc. ucast (\<Sum>i<rc. recv ! i) + (\<Sum>j<e. sizes ! j ! rc)) [0..<G]) [0..<n]"
  using assms by (simp add: offset_outer_prefix [where G = G] cong: map_cong)

lemma gather_after_fields:
  "displcmnts (gather_after alloc G response entries trace k) = replicate G 0"
  "entry_component_offsets (gather_after alloc G response entries trace k)
     = replicate (length entries) (replicate G 0)"
  "length (g_entries (gather_after alloc G response entries trace k)) = length entries"
  "length (recvcounts (gather_after alloc G response entries trace k)) = G"
  "length (entry_component_sizes (gather_after alloc G response entries trace k)) = length entries"
  "g_trace (gather_after alloc G response entries trace k) =
     trace @ ActivityStartAll entries ALLOCATE_OUTPUT
       # map (\<lambda>i. AllocateOutput i (output_shape_of response G entries i)) [0..<k]"
  by (simp_all add: gather_after_def)

lemma AllgatherOp_Execute_success:
  assumes ready: "gather_ready gs entries response"
    and allocs: "allocations_succeed env gs entries response"
  shows "AllgatherOp_Execute env gs trace entries response =
           Inr (OK, gather_result env gs trace entries response)"
proof -
  let ?G = "nat (sint (gs_size gs))"
  let ?n = "length entries"
  let ?st = "gather_after (allocate_output env) ?G response entries trace ?n"
  have G: "0 < sint (gs_size gs)" "?G \<noteq> 0" "entries \<noteq> []"
    using ready by (simp_all add: gather_ready_def)
  have loop: "alloc_loop (allocate_output env) ?G response [0..<?n]
                (gather_after (allocate_output env) ?G response entries trace 0) = Continue ?st"
    using ready allocs
    by (intro alloc_loop_success) (simp_all add: gather_ready_def allocations_succeed_def group_size_def)
  have displ: "displ_loop (recvcounts ?st) [0..<?G] (replicate ?G 0) =
                 map (\<lambda>rc. \<Sum>i<rc. recvcounts ?st ! i) [0..<?G]"
    by (rule displ_loop_full) simp
  have offs: "snd (offset_outer (entry_component_sizes ?st) (recvcounts ?st) ?n [0..<?G]
                     (0, replicate ?n (replicate ?G 0))) =
               map (\<lambda>e. map (\<lambda>rc. ucast (\<Sum>i<rc. recvcounts ?st ! i)
                                        + (\<Sum>j<e. entry_component_sizes ?st ! j ! rc)) [0..<?G])
                 [0..<?n]"
    by (rule offset_outer_full) simp_all
  have st0: "\<lparr>g_entries = entries,
      g_trace = trace @ [ActivityStartAll entries ALLOCATE_OUTPUT],
      entry_component_sizes = replicate (length entries) (replicate ?G 0),
      entry_component_offsets = replicate (length entries) (replicate ?G 0),
      recvcounts = replicate ?G 0,
      displcmnts = replicate ?G 0\<rparr> = gather_after (allocate_output env) ?G response entries trace 0"
    by (simp only: gather_after_0)
  show ?thesis
    unfolding AllgatherOp_Execute_def Let_def st0 loop flow.case
    using G
    by (simp add: gather_after_fields displ offs gather_result_def group_size_def Let_def
          del: upt_Suc)
qed

lemma AllgatherOp_Execute_failure:
  assumes size: "0 \<le> sint (gs_size gs)"
    and k: "k < length entries"
    and ts: "Suc k * group_size gs \<le> length (tensor_sizes response)"
    and before: "\<forall>i<k. ok (fst (allocate_output env i (output_shape_of response (group_size gs) entries i)))"
    and fails: "\<not> ok (fst (allocate_output env k (output_shape_of response (group_size gs) entries k)))"
  shows "AllgatherOp_Execute env gs trace entries response =
           Inr (fst (allocate_output env k (output_shape_of response (group_size gs) entries k)),
                gather_after (allocate_output env) (group_size gs) response entries trace (Suc k))"
proof -
  have ne: "entries \<noteq> []" using k by auto
  have loop: "alloc_loop (allocate_output env) (group_size gs) response [0..<length entries]
                (gather_after (allocate_output env) (group_size gs) response entries trace 0) =
           Return (fst (allocate_output env k (output_shape_of response (group_size gs) entries k)))
             (gather_after (allocate_output env) (group_size gs) response entries trace (Suc k))"
    using k ts before fails by (rule alloc_loop_failure)
  have st0: "\<lparr>g_entries = entries,
      g_trace = trace @ [ActivityStartAll entries ALLOCATE_OUTPUT],
      entry_component_sizes = replicate (length entries) (replicate (group_size gs) 0),
      entry_component_offsets = replicate (length entries) (replicate (group_size gs) 0),
      recvcounts = replicate (group_size gs) 0,
      displcmnts = replicate (group_size gs) 0\<rparr>
        = gather_after (allocate_output env) (group_size gs) response entries trace 0"
    by (simp only: gather_after_0)
  show ?thesis
    unfolding AllgatherOp_Execute_def Let_def group_size_def [symmetric] st0 loop flow.case
    using size ne by simp
qed

section \<open>Allgather: allocation and transport\<close>

lemma gather_result_fields:
  "recvcounts (gather_result env gs trace entries response) =
     map (\<lambda>rc. \<Sum>e<length entries. ucast (component_size response (group_size gs) entries e rc))
       [0..<group_size gs]"
  "entry_component_sizes (gather_result env gs trace entries response) =
     map (\<lambda>e. map (component_size response (group_size gs) entries e) [0..<group_size gs])
       [0..<length entries]"
  "displcmnts (gather_result env gs trace entries response) =
     map (\<lambda>rc. \<Sum>i<rc. recvcounts (gather_result env gs trace entries response) ! i)
       [0..<group_size gs]"
  "entry_component_offsets (gather_result env gs trace entries response) =
     map (\<lambda>e. map (\<lambda>rc. ucast (\<Sum>i<rc. recvcounts (gather_result env gs trace entries response) ! i)
                          + (\<Sum>j<e. entry_component_sizes (gather_result env gs trace entries response) ! j ! rc))
                [0..<group_size gs])
       [0..<length entries]"
  "g_entries (gather_result env gs trace entries response) =
     map (\<lambda>i. (entries ! i)\<lparr>e_output :=
                  snd (allocate_output env i (output_shape_of response (group_size gs) entries i))\<rparr>)
       [0..<length entries]"
  by (simp_all add: gather_result_def gather_after_def Let_def cong: map_cong)

lemma gather_result_trace:
  "\<exists>call. g_trace (gather_result env gs trace entries response) =
     trace @ ActivityStartAll entries ALLOCATE_OUTPUT
       # map (\<lambda>i. AllocateOutput i (output_shape_of response (group_size gs) entries i))
           [0..<length entries]
       @ [ActivityEndAll (g_entries (gather_result env gs trace entries response)), DoAllgather call]
     \<and> ag_recvcounts call = recvcounts (gather_result env gs trace entries response)
     \<and> ag_displcmnts call = displcmnts (gather_result env gs trace entries response)
     \<and> ag_entry_component_offsets call
          = entry_component_offsets (gather_result env gs trace entries response)
     \<and> ag_entry_component_sizes call
          = entry_component_sizes (gather_result env gs trace entries response)
     \<and> ag_total_size call =
          scast (displcmnts (gather_result env gs trace entries response) ! (group_size gs - 1)
                 + recvcounts (gather_result env gs trace entries response) ! (group_size gs - 1))"
  by (simp add: gather_result_def gather_after_def Let_def)

lemma allgather_calls_append:
  "allgather_calls (xs @ ys) = allgather_calls xs @ allgather_calls ys"
  by (induction xs rule: allgather_calls.induct) simp_all

lemma activity_ends_append:
  "activity_ends (xs @ ys) = activity_ends xs @ activity_ends ys"
  by (induction xs rule: activity_ends.induct) simp_all

lemma allocations_append:
  "allocations (xs @ ys) = allocations xs @ allocations ys"
  by (induction xs rule: allocations.induct) simp_all

lemma allgather_calls_allocations [simp]:
  "allgather_calls (map (\<lambda>i. AllocateOutput i (f i)) xs) = []"
  by (induction xs) simp_all

lemma activity_ends_allocations [simp]:
  "activity_ends (map (\<lambda>i. AllocateOutput i (f i)) xs) = []"
  by (induction xs) simp_all

lemma allocations_allocations [simp]:
  "allocations (map (\<lambda>i. AllocateOutput i (f i)) xs) = map (\<lambda>i. (i, f i)) xs"
  by (induction xs) simp_all

text \<open>
  Claim C6. When every output can be allocated, the trace of \<^verbatim>\<open>AllgatherOp::Execute\<close>
  is the start of the activity, one allocation for every entry in the order of the
  batch, the end of the activity, and then one call of \<^verbatim>\<open>DoAllgather\<close>: every output
  is allocated before the transport is called. When the allocation of the entry \<open>k\<close>
  is the first that fails, the call returns the status of that allocation right after
  it, and the trace has no call of \<^verbatim>\<open>DoAllgather\<close>.
\<close>

theorem allocation_precedes_transport:
  assumes "gather_ready gs entries response"
  shows "(allocations_succeed env gs entries response \<longrightarrow>
           (\<exists>st call. AllgatherOp_Execute env gs trace entries response = Inr (OK, st)
              \<and> g_trace st =
                  trace @ ActivityStartAll entries ALLOCATE_OUTPUT
                    # map (\<lambda>i. AllocateOutput i (output_shape_of response (group_size gs) entries i))
                        [0..<length entries]
                    @ [ActivityEndAll (g_entries st), DoAllgather call]))
       \<and> (\<forall>k<length entries.
             (\<forall>i<k. ok (fst (allocate_output env i (output_shape_of response (group_size gs) entries i))))
             \<and> \<not> ok (fst (allocate_output env k (output_shape_of response (group_size gs) entries k)))
             \<longrightarrow>
             (\<exists>st. AllgatherOp_Execute env gs trace entries response =
                      Inr (fst (allocate_output env k (output_shape_of response (group_size gs) entries k)), st)
                \<and> g_trace st =
                    trace @ ActivityStartAll entries ALLOCATE_OUTPUT
                      # map (\<lambda>i. AllocateOutput i (output_shape_of response (group_size gs) entries i))
                          [0..<Suc k]
                \<and> allgather_calls (g_trace st) = allgather_calls trace))"
proof (intro conjI impI allI)
  assume "allocations_succeed env gs entries response"
  then have "AllgatherOp_Execute env gs trace entries response =
               Inr (OK, gather_result env gs trace entries response)"
    using assms by (intro AllgatherOp_Execute_success)
  then show "\<exists>st call. AllgatherOp_Execute env gs trace entries response = Inr (OK, st)
              \<and> g_trace st =
                  trace @ ActivityStartAll entries ALLOCATE_OUTPUT
                    # map (\<lambda>i. AllocateOutput i (output_shape_of response (group_size gs) entries i))
                        [0..<length entries]
                    @ [ActivityEndAll (g_entries st), DoAllgather call]"
    using gather_result_trace [of env gs trace entries response] by blast
next
  fix k
  assume k: "k < length entries"
    and "(\<forall>i<k. ok (fst (allocate_output env i (output_shape_of response (group_size gs) entries i))))
       \<and> \<not> ok (fst (allocate_output env k (output_shape_of response (group_size gs) entries k)))"
  then have before: "\<forall>i<k. ok (fst (allocate_output env i (output_shape_of response (group_size gs) entries i)))"
    and fails: "\<not> ok (fst (allocate_output env k (output_shape_of response (group_size gs) entries k)))"
    by simp_all
  have size: "0 \<le> sint (gs_size gs)"
    using assms by (simp add: gather_ready_def)
  have "Suc k * group_size gs \<le> length entries * group_size gs"
    using k by (intro mult_le_mono1) simp
  then have ts: "Suc k * group_size gs \<le> length (tensor_sizes response)"
    using assms by (simp add: gather_ready_def)
  let ?st = "gather_after (allocate_output env) (group_size gs) response entries trace (Suc k)"
  have run: "AllgatherOp_Execute env gs trace entries response =
          Inr (fst (allocate_output env k (output_shape_of response (group_size gs) entries k)), ?st)"
    using size k ts before fails by (rule AllgatherOp_Execute_failure)
  have tr: "g_trace ?st = trace @ ActivityStartAll entries ALLOCATE_OUTPUT
               # map (\<lambda>i. AllocateOutput i (output_shape_of response (group_size gs) entries i))
                   [0..<Suc k]"
    by (simp only: gather_after_fields)
  have calls: "allgather_calls (g_trace ?st) = allgather_calls trace"
    unfolding tr by (simp add: allgather_calls_append del: upt_Suc)
  show "\<exists>st. AllgatherOp_Execute env gs trace entries response =
                      Inr (fst (allocate_output env k (output_shape_of response (group_size gs) entries k)), st)
                \<and> g_trace st =
                    trace @ ActivityStartAll entries ALLOCATE_OUTPUT
                      # map (\<lambda>i. AllocateOutput i (output_shape_of response (group_size gs) entries i))
                          [0..<Suc k]
                \<and> allgather_calls (g_trace st) = allgather_calls trace"
    using run tr calls by blast
qed
theorem allocation_precedes_transport_witness:
  "(\<exists>st call. AllgatherOp_Execute succeeding (process 0 2) []
        [gather_entry [2, 3], gather_entry [1, 2]] (sizes_response [2, 1, 1, 4]) = Inr (OK, st)
      \<and> g_trace st =
          [ActivityStartAll [gather_entry [2, 3], gather_entry [1, 2]] ALLOCATE_OUTPUT,
           AllocateOutput 0 [3, 3], AllocateOutput 1 [5, 2],
           ActivityEndAll (g_entries st), DoAllgather call])
   \<and> (\<exists>st. AllgatherOp_Execute (failing_allocation 1) (process 0 2) []
        [gather_entry [2, 3], gather_entry [1, 2]] (sizes_response [2, 1, 1, 4])
          = Inr (UnknownError ''out of memory'', st)
      \<and> g_trace st =
          [ActivityStartAll [gather_entry [2, 3], gather_entry [1, 2]] ALLOCATE_OUTPUT,
           AllocateOutput 0 [3, 3], AllocateOutput 1 [5, 2]]
      \<and> allgather_calls (g_trace st) = [])"
proof -
  let ?entries = "[gather_entry [2, 3], gather_entry [1, 2]]"
  let ?response = "sizes_response [2, 1, 1, 4]"
  have ready: "gather_ready (process 0 2) ?entries ?response"
    by (simp add: gather_ready_def process_def sizes_response_def group_size_def)
  have shapes: "output_shape_of ?response (group_size (process 0 2)) ?entries 0 = [3, 3]"
    "output_shape_of ?response (group_size (process 0 2)) ?entries (Suc 0) = [5, 2]"
    by (simp_all add: output_shape_of_def sizes_response_def group_size_def process_def
          gather_entry_def single_slice_shape_eq eval_nat_numeral)
  have all: "allocations_succeed succeeding (process 0 2) ?entries ?response"
    by (simp add: allocations_succeed_def succeeding_def)
  have first: "\<exists>st call. AllgatherOp_Execute succeeding (process 0 2) [] ?entries ?response = Inr (OK, st)
      \<and> g_trace st =
          [ActivityStartAll ?entries ALLOCATE_OUTPUT,
           AllocateOutput 0 [3, 3], AllocateOutput 1 [5, 2],
           ActivityEndAll (g_entries st), DoAllgather call]"
    using allocation_precedes_transport [OF ready, of succeeding "[]"] all
    by (simp add: shapes eval_nat_numeral)
  have second: "\<exists>st. AllgatherOp_Execute (failing_allocation 1) (process 0 2) [] ?entries ?response
          = Inr (UnknownError ''out of memory'', st)
      \<and> g_trace st =
          [ActivityStartAll ?entries ALLOCATE_OUTPUT,
           AllocateOutput 0 [3, 3], AllocateOutput 1 [5, 2]]
      \<and> allgather_calls (g_trace st) = []"
    using allocation_precedes_transport [OF ready, of "failing_allocation 1" "[]",
        THEN conjunct2, rule_format, of "Suc 0"]
    by (simp add: shapes failing_allocation_def succeeding_def)
  show ?thesis using first second by blast
qed

text \<open>
  Claim C10. When the allocation of the entry \<open>k > 0\<close> is the first that fails, the
  entries before it keep the outputs their allocations assigned (the entry \<open>k\<close> holds
  what the failed call left, the entries after it are untouched), and the trace ends
  with the failed allocation: the activity \<^verbatim>\<open>ALLOCATE_OUTPUT\<close> was started and no
  \<^verbatim>\<open>ActivityEndAll\<close> follows.
\<close>

theorem failed_allocation_keeps_outputs:
  assumes "gather_ready gs entries response" "0 < k" "k < length entries"
    and "\<forall>i<k. ok (fst (allocate_output env i (output_shape_of response (group_size gs) entries i)))"
    and "\<not> ok (fst (allocate_output env k (output_shape_of response (group_size gs) entries k)))"
  shows "\<exists>st. AllgatherOp_Execute env gs trace entries response =
                 Inr (fst (allocate_output env k (output_shape_of response (group_size gs) entries k)), st)
           \<and> length (g_entries st) = length entries
           \<and> (\<forall>i\<le>k. g_entries st ! i =
                 (entries ! i)\<lparr>e_output :=
                    snd (allocate_output env i (output_shape_of response (group_size gs) entries i))\<rparr>)
           \<and> (\<forall>i. k < i \<and> i < length entries \<longrightarrow> g_entries st ! i = entries ! i)
           \<and> g_trace st =
               trace @ ActivityStartAll entries ALLOCATE_OUTPUT
                 # map (\<lambda>i. AllocateOutput i (output_shape_of response (group_size gs) entries i))
                     [0..<Suc k]
           \<and> activity_ends (g_trace st) = activity_ends trace"
proof -
  let ?st = "gather_after (allocate_output env) (group_size gs) response entries trace (Suc k)"
  have size: "0 \<le> sint (gs_size gs)"
    using assms(1) by (simp add: gather_ready_def)
  have "Suc k * group_size gs \<le> length entries * group_size gs"
    using assms(3) by (intro mult_le_mono1) simp
  then have ts: "Suc k * group_size gs \<le> length (tensor_sizes response)"
    using assms(1) by (simp add: gather_ready_def)
  have run: "AllgatherOp_Execute env gs trace entries response =
          Inr (fst (allocate_output env k (output_shape_of response (group_size gs) entries k)), ?st)"
    using size assms(3) ts assms(4,5) by (rule AllgatherOp_Execute_failure)
  have len: "length (g_entries ?st) = length entries"
    by (simp only: gather_after_fields)
  have upto: "\<forall>i\<le>k. g_entries ?st ! i =
                 (entries ! i)\<lparr>e_output :=
                    snd (allocate_output env i (output_shape_of response (group_size gs) entries i))\<rparr>"
    using assms(3) by (simp add: gather_after_def)
  have after: "\<forall>i. k < i \<and> i < length entries \<longrightarrow> g_entries ?st ! i = entries ! i"
    by (simp add: gather_after_def)
  have tr: "g_trace ?st = trace @ ActivityStartAll entries ALLOCATE_OUTPUT
               # map (\<lambda>i. AllocateOutput i (output_shape_of response (group_size gs) entries i))
                   [0..<Suc k]"
    by (simp only: gather_after_fields)
  have ends: "activity_ends (g_trace ?st) = activity_ends trace"
    unfolding tr by (simp add: activity_ends_append del: upt_Suc)
  show ?thesis
    using run len upto after tr ends by blast
qed

theorem failed_allocation_keeps_outputs_witness:
  "\<exists>st. AllgatherOp_Execute (failing_allocation 1) (process 0 2) []
        [gather_entry [2, 3], gather_entry [1, 2]] (sizes_response [2, 1, 1, 4])
          = Inr (UnknownError ''out of memory'', st)
      \<and> g_entries st =
          [(gather_entry [2, 3])\<lparr>e_output :=
              Some \<lparr>t_dtype = 0, t_shape = [3, 3], t_data = 3000, t_size = 0\<rparr>\<rparr>,
           gather_entry [1, 2]]
      \<and> g_trace st =
          [ActivityStartAll [gather_entry [2, 3], gather_entry [1, 2]] ALLOCATE_OUTPUT,
           AllocateOutput 0 [3, 3], AllocateOutput 1 [5, 2]]
      \<and> activity_ends (g_trace st) = []"
proof -
  let ?entries = "[gather_entry [2, 3], gather_entry [1, 2]]"
  let ?response = "sizes_response [2, 1, 1, 4]"
  have ready: "gather_ready (process 0 2) ?entries ?response"
    by (simp add: gather_ready_def process_def sizes_response_def group_size_def)
  have shapes: "output_shape_of ?response (group_size (process 0 2)) ?entries 0 = [3, 3]"
    "output_shape_of ?response (group_size (process 0 2)) ?entries (Suc 0) = [5, 2]"
    by (simp_all add: output_shape_of_def sizes_response_def group_size_def process_def
          gather_entry_def single_slice_shape_eq eval_nat_numeral)
  have "\<exists>st. AllgatherOp_Execute (failing_allocation 1) (process 0 2) [] ?entries ?response
          = Inr (UnknownError ''out of memory'', st)
      \<and> length (g_entries st) = Suc (Suc 0)
      \<and> g_entries st ! 0 = (gather_entry [2, 3])\<lparr>e_output :=
              Some \<lparr>t_dtype = 0, t_shape = [3, 3], t_data = 3000, t_size = 0\<rparr>\<rparr>
      \<and> g_entries st ! Suc 0 = (gather_entry [1, 2])\<lparr>e_output := None\<rparr>
      \<and> g_trace st =
          [ActivityStartAll ?entries ALLOCATE_OUTPUT,
           AllocateOutput 0 [3, 3], AllocateOutput 1 [5, 2]]
      \<and> activity_ends (g_trace st) = []"
    using failed_allocation_keeps_outputs [OF ready, of "Suc 0" "failing_allocation 1" "[]"]
    by (simp add: shapes failing_allocation_def succeeding_def le_Suc_eq all_conj_distrib) blast
  then obtain st where st: "AllgatherOp_Execute (failing_allocation 1) (process 0 2) [] ?entries ?response
          = Inr (UnknownError ''out of memory'', st)"
      "length (g_entries st) = Suc (Suc 0)"
      "g_entries st ! 0 = (gather_entry [2, 3])\<lparr>e_output :=
              Some \<lparr>t_dtype = 0, t_shape = [3, 3], t_data = 3000, t_size = 0\<rparr>\<rparr>"
      "g_entries st ! Suc 0 = (gather_entry [1, 2])\<lparr>e_output := None\<rparr>"
      "g_trace st = [ActivityStartAll ?entries ALLOCATE_OUTPUT,
           AllocateOutput 0 [3, 3], AllocateOutput 1 [5, 2]]"
      "activity_ends (g_trace st) = []"
    by blast
  have "g_entries st = [g_entries st ! 0, g_entries st ! Suc 0]"
    using st(2) by (intro nth_equalityI) (auto simp add: less_Suc_eq)
  then have "g_entries st = [(gather_entry [2, 3])\<lparr>e_output :=
              Some \<lparr>t_dtype = 0, t_shape = [3, 3], t_data = 3000, t_size = 0\<rparr>\<rparr>, gather_entry [1, 2]]"
    using st(3,4) by (simp add: gather_entry_def)
  then show ?thesis using st by blast
qed

section \<open>Allgather: the layout\<close>

lemma layout_of_success:
  assumes "gather_ready gs entries response" "allocations_succeed env gs entries response"
  shows "layout_of (AllgatherOp_Execute env gs trace entries response) =
           Some (OK,
                 recvcounts (gather_result env gs trace entries response),
                 displcmnts (gather_result env gs trace entries response),
                 entry_component_offsets (gather_result env gs trace entries response),
                 entry_component_sizes (gather_result env gs trace entries response))"
  using AllgatherOp_Execute_success [OF assms] by (simp add: layout_of_def)

lemma allocations_of_success:
  assumes "gather_ready gs entries response" "allocations_succeed env gs entries response"
  shows "allocations (trace_of (AllgatherOp_Execute env gs trace entries response)) =
           allocations trace
             @ map (\<lambda>i. (i, output_shape_of response (group_size gs) entries i)) [0..<length entries]"
proof -
  obtain call where "g_trace (gather_result env gs trace entries response) =
     trace @ ActivityStartAll entries ALLOCATE_OUTPUT
       # map (\<lambda>i. AllocateOutput i (output_shape_of response (group_size gs) entries i))
           [0..<length entries]
       @ [ActivityEndAll (g_entries (gather_result env gs trace entries response)), DoAllgather call]"
    using gather_result_trace [of env gs trace entries response] by blast
  then show ?thesis
    using AllgatherOp_Execute_success [OF assms]
    by (simp add: trace_of_def allocations_append del: upt_Suc)
qed

lemma scenario_layout:
  assumes "ok (fst (allocate_output env 0 [7, 4]))"
  shows "layout_of (AllgatherOp_Execute env (gs\<lparr>gs_size := 3\<rparr>) trace
                     [e\<lparr>tensor := (tensor e)\<lparr>t_shape := [d, 4]\<rparr>\<rparr>]
                     (response\<lparr>tensor_sizes := [2, 0, 5]\<rparr>))
           = Some (OK, [8, 0, 20], [0, 8, 8], [[0, 8, 8]], [[8, 0, 20]])
       \<and> allocations (trace_of (AllgatherOp_Execute env (gs\<lparr>gs_size := 3\<rparr>) trace
                     [e\<lparr>tensor := (tensor e)\<lparr>t_shape := [d, 4]\<rparr>\<rparr>]
                     (response\<lparr>tensor_sizes := [2, 0, 5]\<rparr>)))
           = allocations trace @ [(0, [7, 4])]"
proof -
  let ?gs = "gs\<lparr>gs_size := 3\<rparr>"
  let ?entries = "[e\<lparr>tensor := (tensor e)\<lparr>t_shape := [d, 4]\<rparr>\<rparr>]"
  let ?response = "response\<lparr>tensor_sizes := [2, 0, 5]\<rparr>"
  have G: "group_size ?gs = Suc (Suc (Suc 0))"
    by (simp add: group_size_def eval_nat_numeral)
  have ready: "gather_ready ?gs ?entries ?response"
    by (simp add: gather_ready_def G)
  have shape: "output_shape_of ?response (Suc (Suc (Suc 0))) ?entries 0 = [7, 4]"
    by (simp add: output_shape_of_def single_slice_shape_eq)
  have allocs: "allocations_succeed env ?gs ?entries ?response"
    using assms by (simp add: allocations_succeed_def G shape)
  have sizes: "component_size ?response (Suc (Suc (Suc 0))) ?entries 0 0 = 8"
    "component_size ?response (Suc (Suc (Suc 0))) ?entries 0 (Suc 0) = 0"
    "component_size ?response (Suc (Suc (Suc 0))) ?entries 0 (Suc (Suc 0)) = 20"
    by (simp_all add: component_size_def single_slice_shape_eq num_elements_def)
  have layout: "layout_of (AllgatherOp_Execute env ?gs trace ?entries ?response)
           = Some (OK, [8, 0, 20], [0, 8, 8], [[0, 8, 8]], [[8, 0, 20]])"
    unfolding layout_of_success [OF ready allocs] gather_result_fields
    by (simp add: G sizes)
  have "allocations (trace_of (AllgatherOp_Execute env ?gs trace ?entries ?response))
           = allocations trace @ [(0, [7, 4])]"
    unfolding allocations_of_success [OF ready allocs]
    by (simp add: G shape)
  with layout show ?thesis by simp
qed

text \<open>
  Claim C3. One entry, a group of 3 processes, the extents 2, 0 and 5 of the ranks and
  the slice shape \<open>[4]\<close>: when the output can be allocated, the call computes the
  receive counts 8, 0 and 20 and the displacements 0, 8 and 8, and the one allocation
  it asks for has the shape \<open>[7, 4]\<close>.
\<close>

theorem gather_scenario:
  assumes "ok (fst (allocate_output env 0 [7, 4]))"
  shows "layout_of (AllgatherOp_Execute env (gs\<lparr>gs_size := 3\<rparr>) trace
                     [e\<lparr>tensor := (tensor e)\<lparr>t_shape := [d, 4]\<rparr>\<rparr>]
                     (response\<lparr>tensor_sizes := [2, 0, 5]\<rparr>))
           = Some (OK, [8, 0, 20], [0, 8, 8], [[0, 8, 8]], [[8, 0, 20]])
       \<and> allocations (trace_of (AllgatherOp_Execute env (gs\<lparr>gs_size := 3\<rparr>) trace
                     [e\<lparr>tensor := (tensor e)\<lparr>t_shape := [d, 4]\<rparr>\<rparr>]
                     (response\<lparr>tensor_sizes := [2, 0, 5]\<rparr>)))
           = allocations trace @ [(0, [7, 4])]"
  using assms by (rule scenario_layout)

theorem gather_scenario_witness:
  "layout_of (AllgatherOp_Execute succeeding (process 0 3) []
                [gather_entry [2, 4]] (sizes_response [2, 0, 5]))
     = Some (OK, [8, 0, 20], [0, 8, 8], [[0, 8, 8]], [[8, 0, 20]])
   \<and> allocations (trace_of (AllgatherOp_Execute succeeding (process 0 3) []
                [gather_entry [2, 4]] (sizes_response [2, 0, 5])))
     = [(0, [7, 4])]"
  using gather_scenario [where env = succeeding and gs = "process 0 3" and trace = "[]"
      and e = "gather_entry [2, 4]" and d = 2 and response = "sizes_response [2, 0, 5]"]
  by (simp add: succeeding_def process_def gather_entry_def sizes_response_def)

section \<open>Broadcast\<close>

text \<open>
  Claim C7, as the spec states it, fails: the count given to the transport is the
  element count narrowed to \<^verbatim>\<open>int\<close>. For a vector of 4294967296 elements the root
  gives the count 0.
\<close>

theorem broadcast_count_counterexample:
  "BroadcastOp_Execute succeeding (process 0 2) [] [broadcast_entry 4294967296] (sizes_response [])
     = Inr (OK, [broadcast_entry 4294967296], [DoBroadcast [broadcast_entry 4294967296] 1000 0 0 0])
   \<and> sint (num_elements (t_shape (tensor (broadcast_entry 4294967296)))) = 4294967296"
  by (simp add: BroadcastOp_Execute_def broadcast_entry_def num_elements_def process_def Let_def)

text \<open>
  Claim C7, amended. For a batch of one entry, \<^verbatim>\<open>BroadcastOp::Execute\<close> calls the
  transport once: with the data of the input tensor when the rank of the process is
  the root rank of the entry, with the data of the output tensor otherwise (the output
  must be allocated), and with the element count narrowed to \<^verbatim>\<open>int\<close>, the data type
  and the root rank. The narrowed count has the value of the element count when that
  fits in an \<^verbatim>\<open>int\<close>. \<^verbatim>\<open>Enabled\<close> is true for all arguments.
\<close>

theorem broadcast_buffer_choice:
  "(gs_rank gs = root_rank e \<longrightarrow>
      BroadcastOp_Execute env gs trace [e] response =
        Inr (OK, [e], trace @ [DoBroadcast [e] (t_data (tensor e))
                                 (ucast (num_elements (t_shape (tensor e))))
                                 (t_dtype (tensor e)) (root_rank e)]))
   \<and> (gs_rank gs \<noteq> root_rank e \<and> e_output e = Some out \<longrightarrow>
      BroadcastOp_Execute env gs trace [e] response =
        Inr (OK, [e], trace @ [DoBroadcast [e] (t_data out)
                                 (ucast (num_elements (t_shape (tensor e))))
                                 (t_dtype (tensor e)) (root_rank e)]))
   \<and> (- (2 ^ 31) \<le> sint (num_elements (t_shape (tensor e)))
        \<and> sint (num_elements (t_shape (tensor e))) < 2 ^ 31 \<longrightarrow>
      sint (ucast (num_elements (t_shape (tensor e))) :: int32)
        = sint (num_elements (t_shape (tensor e))))
   \<and> BroadcastOp_Enabled param_manager entries response"
  by (simp add: BroadcastOp_Execute_def BroadcastOp_Enabled_def narrow_int64_value Let_def)

theorem broadcast_buffer_choice_witness:
  "BroadcastOp_Execute succeeding (process 0 2) [] [broadcast_entry 6] (sizes_response [])
     = Inr (OK, [broadcast_entry 6], [DoBroadcast [broadcast_entry 6] 1000 6 0 0])
   \<and> BroadcastOp_Execute succeeding (process 1 2) [] [broadcast_entry 6] (sizes_response [])
     = Inr (OK, [broadcast_entry 6], [DoBroadcast [broadcast_entry 6] 2000 6 0 0])
   \<and> sint (ucast (num_elements (t_shape (tensor (broadcast_entry 6)))) :: int32) = 6"
  using broadcast_buffer_choice [where gs = "process 0 2" and e = "broadcast_entry 6"
      and env = succeeding and trace = "[]" and response = "sizes_response []"]
    broadcast_buffer_choice [where gs = "process 1 2" and e = "broadcast_entry 6"
      and env = succeeding and trace = "[]" and response = "sizes_response []"
      and out = "\<lparr>t_dtype = 0, t_shape = [6], t_data = 2000, t_size = 6\<rparr>"]
  by (simp add: broadcast_entry_def num_elements_def process_def BroadcastOp_Enabled_def)

section \<open>A transport call that fails\<close>



text \<open>
  With a transport whose calls complete, \<^verbatim>\<open>Execute\<close> ends as the definitions of the
  first sections say.
\<close>

lemma BroadcastOp_Execute_transport_completes:
  "BroadcastOp_Execute_transport completing_transport gs trace entries response =
     (case BroadcastOp_Execute env gs trace entries response of
        Inl f \<Rightarrow> Faults f
      | Inr r \<Rightarrow> Returns r)"
  by (simp add: BroadcastOp_Execute_transport_def BroadcastOp_Execute_def completing_transport_def
        Let_def split: option.splits)

lemma AllgatherOp_Execute_transport_completes:
  "AllgatherOp_Execute_transport env completing_transport gs trace entries response =
     (case AllgatherOp_Execute env gs trace entries response of
        Inl f \<Rightarrow> Faults f
      | Inr r \<Rightarrow> Returns r)"
  by (simp add: AllgatherOp_Execute_transport_def AllgatherOp_Execute_def completing_transport_def
        Let_def split: flow.splits)








section \<open>Allgather: offsets, counts and displacements\<close>

lemma gather_result_nth:
  assumes "rc < group_size gs"
  shows "recvcounts (gather_result env gs trace entries response) ! rc =
           (\<Sum>e<length entries. ucast (component_size response (group_size gs) entries e rc))"
    and "displcmnts (gather_result env gs trace entries response) ! rc =
           (\<Sum>i<rc. recvcounts (gather_result env gs trace entries response) ! i)"
    and "e < length entries \<Longrightarrow>
         entry_component_sizes (gather_result env gs trace entries response) ! e ! rc =
           component_size response (group_size gs) entries e rc"
    and "e < length entries \<Longrightarrow>
         entry_component_offsets (gather_result env gs trace entries response) ! e ! rc =
           ucast (\<Sum>i<rc. recvcounts (gather_result env gs trace entries response) ! i)
             + (\<Sum>j<e. entry_component_sizes (gather_result env gs trace entries response) ! j ! rc)"
  using assms by (simp_all add: gather_result_fields)

lemma widen_nonneg_int32:
  fixes d :: int32
  assumes "0 \<le> sint d"
  shows "sint (ucast d :: int64) = sint d"
proof -
  have "uint d < 2 ^ 32"
    using uint_bounded [of d] by simp
  then have upper: "uint d < 2 ^ 63"
    by simp
  have lower: "- (2 ^ 63) \<le> uint d"
    by (rule order_trans [of _ 0]) simp_all
  have "signed_take_bit 63 (uint d) = uint d"
    using lower upper by (rule signed_take_bit_int_eq_self)
  then have "sint (ucast d :: int64) = uint d"
    by (simp add: signed_ucast_eq)
  moreover have "sint d = uint d"
  proof -
    have "sint d < 2 ^ 32"
      using sint_lt [of d] by simp
    then have "take_bit 32 (sint d) = sint d"
      using assms by (intro take_bit_int_eq_self)
    then show ?thesis
      using uint_sint [of d] by simp
  qed
  ultimately show ?thesis by simp
qed

text \<open>
  Claim C1, as the spec states it, fails: \<^verbatim>\<open>rank_displacement\<close> is an
  \<^verbatim>\<open>unsigned int\<close> and \<^verbatim>\<open>displcmnts\<close> an array of \<^verbatim>\<open>int\<close>. In a group of two
  processes where the rank 0 contributes 2147483648 rows of one element, the offset of
  the entry 0 at the rank 1 is 2147483648 and \<^verbatim>\<open>displcmnts[1]\<close> is -2147483648.
\<close>

theorem gather_offsets_counterexample:
  "layout_of (AllgatherOp_Execute succeeding (process 0 2) []
                [gather_entry [2147483648, 1]] (sizes_response [2147483648, 0]))
     = Some (OK, [2147483648, 0], [0, 2147483648], [[0, 2147483648]], [[2147483648, 0]])
   \<and> sint (2147483648 :: int64) = 2147483648
   \<and> sint (2147483648 :: int32) = - 2147483648"
proof -
  let ?gs = "process 0 2"
  let ?entries = "[gather_entry [2147483648, 1]]"
  let ?response = "sizes_response [2147483648, 0]"
  have G: "group_size ?gs = Suc (Suc 0)"
    by (simp add: group_size_def process_def eval_nat_numeral)
  have ready: "gather_ready ?gs ?entries ?response"
    by (simp add: gather_ready_def G) (simp add: process_def sizes_response_def)
  have allocs: "allocations_succeed succeeding ?gs ?entries ?response"
    by (simp add: allocations_succeed_def succeeding_def)
  have sizes: "component_size ?response (Suc (Suc 0)) ?entries 0 0 = 2147483648"
    "component_size ?response (Suc (Suc 0)) ?entries 0 (Suc 0) = 0"
    by (simp_all add: component_size_def single_slice_shape_eq num_elements_def
          gather_entry_def sizes_response_def)
  have "layout_of (AllgatherOp_Execute succeeding ?gs [] ?entries ?response)
     = Some (OK, [2147483648, 0], [0, 2147483648], [[0, 2147483648]], [[2147483648, 0]])"
    unfolding layout_of_success [OF ready allocs] gather_result_fields
    by (simp add: G sizes)
  then show ?thesis by simp
qed

text \<open>
  Claim C1, amended. For a batch that is not empty and a group of at least one
  process (the table of the response long enough, every output allocated), the offset
  of the entry 0 at the rank \<open>rc\<close> is the running rank displacement: the sum of
  \<^verbatim>\<open>recvcounts[0..rc-1]\<close> in unsigned 32-bit arithmetic, widened to 64 bits.
  \<^verbatim>\<open>displcmnts[rc]\<close> holds the same 32 bits, and the two are the same integer when
  \<^verbatim>\<open>displcmnts[rc]\<close> is not negative. For an entry \<open>e > 0\<close> the offset at the rank
  \<open>rc\<close> is the offset of the entry \<open>e - 1\<close> at that rank plus the size of its component
  there, in \<^verbatim>\<open>int64_t\<close>.
\<close>

theorem gather_offsets:
  assumes "gather_ready gs entries response" "allocations_succeed env gs entries response"
  shows "\<exists>st. AllgatherOp_Execute env gs trace entries response = Inr (OK, st)
           \<and> (\<forall>rc<group_size gs.
                 entry_component_offsets st ! 0 ! rc = ucast (\<Sum>i<rc. recvcounts st ! i)
               \<and> displcmnts st ! rc = (\<Sum>i<rc. recvcounts st ! i)
               \<and> (0 \<le> sint (displcmnts st ! rc) \<longrightarrow>
                    sint (entry_component_offsets st ! 0 ! rc) = sint (displcmnts st ! rc))
               \<and> (\<forall>e. 0 < e \<and> e < length entries \<longrightarrow>
                    entry_component_offsets st ! e ! rc =
                      entry_component_offsets st ! (e - 1) ! rc
                        + entry_component_sizes st ! (e - 1) ! rc))"
proof -
  let ?st = "gather_result env gs trace entries response"
  have run: "AllgatherOp_Execute env gs trace entries response = Inr (OK, ?st)"
    using assms by (rule AllgatherOp_Execute_success)
  have ne: "0 < length entries"
    using assms(1) by (simp add: gather_ready_def)
  have layout: "entry_component_offsets ?st ! 0 ! rc = ucast (\<Sum>i<rc. recvcounts ?st ! i)
               \<and> displcmnts ?st ! rc = (\<Sum>i<rc. recvcounts ?st ! i)
               \<and> (0 \<le> sint (displcmnts ?st ! rc) \<longrightarrow>
                    sint (entry_component_offsets ?st ! 0 ! rc) = sint (displcmnts ?st ! rc))
               \<and> (\<forall>e. 0 < e \<and> e < length entries \<longrightarrow>
                    entry_component_offsets ?st ! e ! rc =
                      entry_component_offsets ?st ! (e - 1) ! rc
                        + entry_component_sizes ?st ! (e - 1) ! rc)"
    if rc: "rc < group_size gs" for rc
  proof (intro conjI impI allI)
    show first: "entry_component_offsets ?st ! 0 ! rc = ucast (\<Sum>i<rc. recvcounts ?st ! i)"
      using gather_result_nth(4) [OF rc ne, of env trace response] by simp
    show displ: "displcmnts ?st ! rc = (\<Sum>i<rc. recvcounts ?st ! i)"
      using rc by (rule gather_result_nth(2))
    show "sint (entry_component_offsets ?st ! 0 ! rc) = sint (displcmnts ?st ! rc)"
      if "0 \<le> sint (displcmnts ?st ! rc)"
      using that widen_nonneg_int32 [of "displcmnts ?st ! rc"] by (simp add: first displ)
    show "entry_component_offsets ?st ! e ! rc =
            entry_component_offsets ?st ! (e - 1) ! rc + entry_component_sizes ?st ! (e - 1) ! rc"
      if e: "0 < e \<and> e < length entries" for e
    proof -
      obtain m where m: "e = Suc m" using e by (cases e) simp_all
      have "m < length entries" using e m by simp
      then show ?thesis
        using e gather_result_nth(4) [OF rc, of e entries env trace response]
          gather_result_nth(4) [OF rc, of m entries env trace response]
        by (simp add: m add.assoc)
    qed
  qed
  show ?thesis
    using run layout by blast
qed

theorem gather_offsets_witness:
  "\<exists>st. AllgatherOp_Execute succeeding (process 0 2) []
          [gather_entry [2, 3], gather_entry [1, 2]] (sizes_response [2, 1, 1, 4]) = Inr (OK, st)
     \<and> (\<forall>rc<group_size (process 0 2).
           entry_component_offsets st ! 0 ! rc = ucast (\<Sum>i<rc. recvcounts st ! i)
         \<and> displcmnts st ! rc = (\<Sum>i<rc. recvcounts st ! i)
         \<and> (0 \<le> sint (displcmnts st ! rc) \<longrightarrow>
              sint (entry_component_offsets st ! 0 ! rc) = sint (displcmnts st ! rc))
         \<and> (\<forall>e. 0 < e \<and> e < length [gather_entry [2, 3], gather_entry [1, 2]] \<longrightarrow>
              entry_component_offsets st ! e ! rc =
                entry_component_offsets st ! (e - 1) ! rc + entry_component_sizes st ! (e - 1) ! rc))"
proof -
  let ?entries = "[gather_entry [2, 3], gather_entry [1, 2]]"
  let ?response = "sizes_response [2, 1, 1, 4]"
  have ready: "gather_ready (process 0 2) ?entries ?response"
    by (simp add: gather_ready_def process_def sizes_response_def group_size_def)
  have all: "allocations_succeed succeeding (process 0 2) ?entries ?response"
    by (simp add: allocations_succeed_def succeeding_def)
  show ?thesis
    using ready all by (rule gather_offsets)
qed

lemma sint_add_in_range:
  fixes a b :: int32
  assumes "- (2 ^ 31) \<le> sint a + sint b" "sint a + sint b < 2 ^ 31"
  shows "sint (a + b) = sint a + sint b"
proof -
  have "sint (a + b) = signed_take_bit 31 (sint a + sint b)"
    by (simp add: sint_word_ariths)
  also have "\<dots> = sint a + sint b"
    using assms by (rule signed_take_bit_int_eq_self)
  finally show ?thesis .
qed

lemma sint_sum_in_range:
  fixes f :: "nat \<Rightarrow> int32"
  assumes "\<forall>i<n. 0 \<le> sint (f i)" "(\<Sum>i<n. sint (f i)) < 2 ^ 31"
  shows "sint (\<Sum>i<n. f i) = (\<Sum>i<n. sint (f i))"
  using assms
proof (induction n)
  case 0
  show ?case by simp
next
  case (Suc n)
  have last: "0 \<le> sint (f n)"
    using Suc.prems(1) by simp
  have nonneg: "0 \<le> (\<Sum>i<n. sint (f i))"
    using Suc.prems(1) by (intro sum_nonneg) simp
  have total: "(\<Sum>i<n. sint (f i)) + sint (f n) < 2 ^ 31"
    using Suc.prems(2) by simp
  have less: "(\<Sum>i<n. sint (f i)) < 2 ^ 31"
    using last total by linarith
  have IH: "sint (\<Sum>i<n. f i) = (\<Sum>i<n. sint (f i))"
    using Suc.prems(1) less by (intro Suc.IH) simp_all
  have "sint ((\<Sum>i<n. f i) + f n) = sint (\<Sum>i<n. f i) + sint (f n)"
    using last nonneg total by (intro sint_add_in_range) (simp_all add: IH)
  then show ?case
    by (simp add: IH)
qed

lemma sint_scast_int32: "sint (scast (w :: int32) :: int64) = sint w"
proof -
  have lower: "- (2 ^ 63) \<le> sint w"
    using sint_ge [of w] by simp
  have upper: "sint w < 2 ^ 63"
    using sint_lt [of w] by simp
  have "signed_take_bit 63 (sint w) = sint w"
    using lower upper by (rule signed_take_bit_int_eq_self)
  then show ?thesis
    by (simp add: signed_scast_eq)
qed

lemma counts_exact:
  fixes csize :: "nat \<Rightarrow> nat \<Rightarrow> int64"
  assumes nonneg: "\<forall>e<n. \<forall>rc<G. 0 \<le> sint (csize e rc)"
    and total: "(\<Sum>e<n. \<Sum>rc<G. sint (csize e rc)) < 2 ^ 31"
  shows "\<forall>rc<G. sint (\<Sum>e<n. ucast (csize e rc) :: int32) = (\<Sum>e<n. sint (csize e rc))"
    and "sint (\<Sum>rc<G. \<Sum>e<n. (ucast (csize e rc) :: int32)) = (\<Sum>e<n. \<Sum>rc<G. sint (csize e rc))"
proof -
  have swap: "(\<Sum>e<n. \<Sum>rc<G. sint (csize e rc)) = (\<Sum>rc<G. \<Sum>e<n. sint (csize e rc))"
    by (rule sum.swap)
  have col_nonneg: "0 \<le> (\<Sum>e<n. sint (csize e rc))" if "rc < G" for rc
    using nonneg that by (intro sum_nonneg) simp
  have col_le: "(\<Sum>e<n. sint (csize e rc)) \<le> (\<Sum>rc<G. \<Sum>e<n. sint (csize e rc))"
    if "rc < G" for rc
    using that col_nonneg by (intro member_le_sum) simp_all
  have col_less: "(\<Sum>e<n. sint (csize e rc)) < 2 ^ 31" if "rc < G" for rc
    using col_le [OF that] total swap by linarith
  have term_le: "sint (csize e rc) \<le> (\<Sum>e<n. sint (csize e rc))" if "e < n" "rc < G" for e rc
    using that nonneg by (intro member_le_sum) simp_all
  have narrow: "sint (ucast (csize e rc) :: int32) = sint (csize e rc)" if "e < n" "rc < G" for e rc
  proof (rule narrow_int64_value)
    have "0 \<le> sint (csize e rc)" using nonneg that by simp
    then show "- (2 ^ 31) \<le> sint (csize e rc)" by simp
    show "sint (csize e rc) < 2 ^ 31"
      using term_le [OF that] col_less [OF that(2)] by linarith
  qed
  have col: "sint (\<Sum>e<n. ucast (csize e rc) :: int32) = (\<Sum>e<n. sint (csize e rc))"
    if rc: "rc < G" for rc
  proof -
    have "sint (\<Sum>e<n. ucast (csize e rc) :: int32) = (\<Sum>e<n. sint (ucast (csize e rc) :: int32))"
    proof (rule sint_sum_in_range)
      show "\<forall>e<n. 0 \<le> sint (ucast (csize e rc) :: int32)"
        using nonneg rc by (simp add: narrow)
      have "(\<Sum>e<n. sint (ucast (csize e rc) :: int32)) = (\<Sum>e<n. sint (csize e rc))"
        using rc by (intro sum.cong) (simp_all add: narrow)
      then show "(\<Sum>e<n. sint (ucast (csize e rc) :: int32)) < 2 ^ 31"
        using col_less [OF rc] by simp
    qed
    also have "\<dots> = (\<Sum>e<n. sint (csize e rc))"
      using rc by (intro sum.cong) (simp_all add: narrow)
    finally show ?thesis .
  qed
  then show "\<forall>rc<G. sint (\<Sum>e<n. ucast (csize e rc) :: int32) = (\<Sum>e<n. sint (csize e rc))"
    by simp
  have cols: "(\<Sum>rc<G. sint (\<Sum>e<n. ucast (csize e rc) :: int32))
                = (\<Sum>rc<G. \<Sum>e<n. sint (csize e rc))"
    by (intro sum.cong) (simp_all add: col)
  have "sint (\<Sum>rc<G. \<Sum>e<n. (ucast (csize e rc) :: int32))
          = (\<Sum>rc<G. sint (\<Sum>e<n. ucast (csize e rc) :: int32))"
  proof (rule sint_sum_in_range)
    show "\<forall>rc<G. 0 \<le> sint (\<Sum>e<n. ucast (csize e rc) :: int32)"
      using col_nonneg by (simp add: col)
    show "(\<Sum>rc<G. sint (\<Sum>e<n. ucast (csize e rc) :: int32)) < 2 ^ 31"
      using total swap cols by simp
  qed
  then show "sint (\<Sum>rc<G. \<Sum>e<n. (ucast (csize e rc) :: int32))
               = (\<Sum>e<n. \<Sum>rc<G. sint (csize e rc))"
    using swap cols by simp
qed

text \<open>
  Claim C2, as the spec states it, fails: \<^verbatim>\<open>recvcounts\<close> is an array of \<^verbatim>\<open>int\<close> and
  the size of a component an \<^verbatim>\<open>int64_t\<close>. For one process and one entry of
  4294967296 rows of one element, the size of the component is 4294967296 and the
  receive count is 0.
\<close>

theorem gather_counts_counterexample:
  "layout_of (AllgatherOp_Execute succeeding (process 0 1) []
                [gather_entry [4294967296, 1]] (sizes_response [4294967296]))
     = Some (OK, [0], [0], [[0]], [[4294967296]])
   \<and> sum_list (map sint [0 :: int32]) \<noteq> sum_list (map sint (concat [[4294967296 :: int64]]))"
proof -
  let ?gs = "process 0 1"
  let ?entries = "[gather_entry [4294967296, 1]]"
  let ?response = "sizes_response [4294967296]"
  have G: "group_size ?gs = Suc 0"
    by (simp add: group_size_def process_def)
  have ready: "gather_ready ?gs ?entries ?response"
    by (simp add: gather_ready_def G) (simp add: process_def sizes_response_def)
  have allocs: "allocations_succeed succeeding ?gs ?entries ?response"
    by (simp add: allocations_succeed_def succeeding_def)
  have sizes: "component_size ?response (Suc 0) ?entries 0 0 = 4294967296"
    by (simp add: component_size_def single_slice_shape_eq num_elements_def
          gather_entry_def sizes_response_def)
  have "layout_of (AllgatherOp_Execute succeeding ?gs [] ?entries ?response)
     = Some (OK, [0], [0], [[0]], [[4294967296]])"
    unfolding layout_of_success [OF ready allocs] gather_result_fields
    by (simp add: G sizes)
  then show ?thesis by simp
qed

text \<open>
  Claim C2, amended. For a batch that is not empty (the table of the response long
  enough, every output allocated): \<^verbatim>\<open>entry_component_sizes[e][rc]\<close> is the extent
  of the rank times the element count of the slice shape, in \<^verbatim>\<open>int64_t\<close>;
  \<^verbatim>\<open>recvcounts[rc]\<close> is the sum over the entries of these sizes narrowed to
  \<^verbatim>\<open>int\<close>; \<^verbatim>\<open>displcmnts[0] = 0\<close> and
  \<^verbatim>\<open>displcmnts[rc] = displcmnts[rc-1] + recvcounts[rc-1]\<close> in \<^verbatim>\<open>int\<close>; the total
  size given to the transport is \<^verbatim>\<open>displcmnts[G-1] + recvcounts[G-1]\<close>, which is the
  sum of the receive counts in \<^verbatim>\<open>int\<close>. When no size of a component is negative and
  their sum is below \<open>2^31\<close>, the sum of the receive counts, the sum of the sizes of all
  components and the total size are the same integer.
\<close>

theorem gather_counts:
  assumes "gather_ready gs entries response" "allocations_succeed env gs entries response"
  shows "\<exists>st call. AllgatherOp_Execute env gs trace entries response = Inr (OK, st)
           \<and> allgather_calls (g_trace st) = allgather_calls trace @ [call]
           \<and> ag_recvcounts call = recvcounts st \<and> ag_displcmnts call = displcmnts st
           \<and> (\<forall>rc<group_size gs. \<forall>e<length entries.
                 entry_component_sizes st ! e ! rc = component_size response (group_size gs) entries e rc)
           \<and> (\<forall>rc<group_size gs.
                 recvcounts st ! rc = (\<Sum>e<length entries. ucast (entry_component_sizes st ! e ! rc)))
           \<and> displcmnts st ! 0 = 0
           \<and> (\<forall>rc. 0 < rc \<and> rc < group_size gs \<longrightarrow>
                 displcmnts st ! rc = displcmnts st ! (rc - 1) + recvcounts st ! (rc - 1))
           \<and> ag_total_size call =
                scast (displcmnts st ! (group_size gs - 1) + recvcounts st ! (group_size gs - 1))
           \<and> displcmnts st ! (group_size gs - 1) + recvcounts st ! (group_size gs - 1)
                = (\<Sum>rc<group_size gs. recvcounts st ! rc)
           \<and> ((\<forall>e<length entries. \<forall>rc<group_size gs. 0 \<le> sint (entry_component_sizes st ! e ! rc))
                \<and> (\<Sum>e<length entries. \<Sum>rc<group_size gs. sint (entry_component_sizes st ! e ! rc))
                      < 2 ^ 31 \<longrightarrow>
                (\<Sum>rc<group_size gs. sint (recvcounts st ! rc))
                  = (\<Sum>e<length entries. \<Sum>rc<group_size gs. sint (entry_component_sizes st ! e ! rc))
                \<and> sint (ag_total_size call) = (\<Sum>rc<group_size gs. sint (recvcounts st ! rc)))"
proof -
  let ?st = "gather_result env gs trace entries response"
  let ?G = "group_size gs"
  let ?n = "length entries"
  let ?c = "component_size response ?G entries"
  have run: "AllgatherOp_Execute env gs trace entries response = Inr (OK, ?st)"
    using assms by (rule AllgatherOp_Execute_success)
  have G: "0 < ?G"
    using assms(1) by (simp add: gather_ready_def group_size_def)
  obtain m where m: "?G = Suc m"
    using G by (cases ?G) simp_all
  obtain call where tr: "g_trace ?st =
     trace @ ActivityStartAll entries ALLOCATE_OUTPUT
       # map (\<lambda>i. AllocateOutput i (output_shape_of response ?G entries i)) [0..<?n]
       @ [ActivityEndAll (g_entries ?st), DoAllgather call]"
    and call: "ag_recvcounts call = recvcounts ?st" "ag_displcmnts call = displcmnts ?st"
      "ag_total_size call = scast (displcmnts ?st ! (?G - 1) + recvcounts ?st ! (?G - 1))"
    using gather_result_trace [of env gs trace entries response] by blast
  have calls: "allgather_calls (g_trace ?st) = allgather_calls trace @ [call]"
    unfolding tr by (simp add: allgather_calls_append del: upt_Suc)
  have sizes: "\<forall>rc<?G. \<forall>e<?n. entry_component_sizes ?st ! e ! rc = ?c e rc"
    by (simp add: gather_result_nth(3))
  have recv_c: "recvcounts ?st ! rc = (\<Sum>e<?n. ucast (?c e rc))" if "rc < ?G" for rc
    using that by (rule gather_result_nth(1))
  have recv: "\<forall>rc<?G. recvcounts ?st ! rc = (\<Sum>e<?n. ucast (entry_component_sizes ?st ! e ! rc))"
  proof (intro allI impI)
    fix rc assume rc: "rc < ?G"
    have "(\<Sum>e<?n. ucast (entry_component_sizes ?st ! e ! rc) :: int32) = (\<Sum>e<?n. ucast (?c e rc))"
      using rc by (intro sum.cong) (simp_all add: gather_result_nth(3))
    then show "recvcounts ?st ! rc = (\<Sum>e<?n. ucast (entry_component_sizes ?st ! e ! rc))"
      using recv_c [OF rc] by simp
  qed
  have displ: "displcmnts ?st ! rc = (\<Sum>i<rc. recvcounts ?st ! i)" if "rc < ?G" for rc
    using that by (rule gather_result_nth(2))
  have displ0: "displcmnts ?st ! 0 = 0"
    using displ [OF G] by simp
  have step: "\<forall>rc. 0 < rc \<and> rc < ?G \<longrightarrow>
                 displcmnts ?st ! rc = displcmnts ?st ! (rc - 1) + recvcounts ?st ! (rc - 1)"
  proof (intro allI impI)
    fix rc assume rc: "0 < rc \<and> rc < ?G"
    then obtain k where k: "rc = Suc k" by (cases rc) simp_all
    have "k < ?G" using rc k by simp
    then show "displcmnts ?st ! rc = displcmnts ?st ! (rc - 1) + recvcounts ?st ! (rc - 1)"
      using rc displ [of rc] displ [of k] by (simp add: k)
  qed
  have last: "displcmnts ?st ! (?G - 1) + recvcounts ?st ! (?G - 1) = (\<Sum>rc<?G. recvcounts ?st ! rc)"
    using displ [of m] by (simp add: m)
  have exact: "(\<Sum>rc<?G. sint (recvcounts ?st ! rc))
                  = (\<Sum>e<?n. \<Sum>rc<?G. sint (entry_component_sizes ?st ! e ! rc))
                \<and> sint (ag_total_size call) = (\<Sum>rc<?G. sint (recvcounts ?st ! rc))"
    if range: "(\<forall>e<?n. \<forall>rc<?G. 0 \<le> sint (entry_component_sizes ?st ! e ! rc))
                \<and> (\<Sum>e<?n. \<Sum>rc<?G. sint (entry_component_sizes ?st ! e ! rc)) < 2 ^ 31"
  proof -
    have same: "(\<Sum>e<?n. \<Sum>rc<?G. sint (entry_component_sizes ?st ! e ! rc))
                  = (\<Sum>e<?n. \<Sum>rc<?G. sint (?c e rc))"
      by (intro sum.cong refl) (simp add: gather_result_nth(3))
    have nonneg: "\<forall>e<?n. \<forall>rc<?G. 0 \<le> sint (?c e rc)"
      using range by (simp add: gather_result_nth(3))
    have total: "(\<Sum>e<?n. \<Sum>rc<?G. sint (?c e rc)) < 2 ^ 31"
      using range same by simp
    have cols: "(\<Sum>rc<?G. sint (recvcounts ?st ! rc)) = (\<Sum>rc<?G. \<Sum>e<?n. sint (?c e rc))"
      using counts_exact(1) [OF nonneg total]
      by (intro sum.cong refl) (simp add: recv_c)
    also have "\<dots> = (\<Sum>e<?n. \<Sum>rc<?G. sint (?c e rc))"
      by (rule sum.swap)
    finally have first: "(\<Sum>rc<?G. sint (recvcounts ?st ! rc))
                  = (\<Sum>e<?n. \<Sum>rc<?G. sint (entry_component_sizes ?st ! e ! rc))"
      using same by simp
    have "(\<Sum>rc<?G. recvcounts ?st ! rc) = (\<Sum>rc<?G. \<Sum>e<?n. ucast (?c e rc))"
      by (intro sum.cong refl) (simp add: recv_c)
    then have "sint (\<Sum>rc<?G. recvcounts ?st ! rc) = (\<Sum>e<?n. \<Sum>rc<?G. sint (?c e rc))"
      using counts_exact(2) [OF nonneg total] by simp
    then have "sint (displcmnts ?st ! (?G - 1) + recvcounts ?st ! (?G - 1))
                 = (\<Sum>rc<?G. sint (recvcounts ?st ! rc))"
      using first same by (simp only: last)
    then have "sint (ag_total_size call) = (\<Sum>rc<?G. sint (recvcounts ?st ! rc))"
      by (simp only: call(3) sint_scast_int32)
    with first show ?thesis by simp
  qed
  show ?thesis
    using run calls call sizes recv displ0 step last exact by blast
qed

theorem gather_counts_witness:
  "\<exists>st call. AllgatherOp_Execute succeeding (process 0 2) []
          [gather_entry [2, 3], gather_entry [1, 2]] (sizes_response [2, 1, 1, 4]) = Inr (OK, st)
     \<and> allgather_calls (g_trace st) = [call]
     \<and> displcmnts st ! 0 = 0
     \<and> displcmnts st ! 1 = displcmnts st ! 0 + recvcounts st ! 0
     \<and> sint (entry_component_sizes st ! 0 ! 0) + sint (entry_component_sizes st ! 0 ! 1)
         + (sint (entry_component_sizes st ! 1 ! 0) + sint (entry_component_sizes st ! 1 ! 1)) = 19
     \<and> sint (recvcounts st ! 0) + sint (recvcounts st ! 1) = 19
     \<and> sint (ag_total_size call) = 19"
proof -
  let ?gs = "process 0 2"
  let ?entries = "[gather_entry [2, 3], gather_entry [1, 2]]"
  let ?response = "sizes_response [2, 1, 1, 4]"
  have G: "group_size ?gs = Suc (Suc 0)"
    by (simp add: group_size_def process_def eval_nat_numeral)
  have n: "length ?entries = Suc (Suc 0)"
    by simp
  have ready: "gather_ready ?gs ?entries ?response"
    by (simp add: gather_ready_def process_def sizes_response_def group_size_def)
  have all: "allocations_succeed succeeding ?gs ?entries ?response"
    by (simp add: allocations_succeed_def succeeding_def)
  have c: "component_size ?response (Suc (Suc 0)) ?entries 0 0 = 6"
    "component_size ?response (Suc (Suc 0)) ?entries 0 (Suc 0) = 3"
    "component_size ?response (Suc (Suc 0)) ?entries (Suc 0) 0 = 2"
    "component_size ?response (Suc (Suc 0)) ?entries (Suc 0) (Suc 0) = 8"
    by (simp_all add: component_size_def single_slice_shape_eq num_elements_def
          gather_entry_def sizes_response_def)
  obtain st call where run: "AllgatherOp_Execute succeeding ?gs [] ?entries ?response = Inr (OK, st)"
    and calls: "allgather_calls (g_trace st) = allgather_calls [] @ [call]"
    and sizes: "\<forall>rc<group_size ?gs. \<forall>e<length ?entries.
                 entry_component_sizes st ! e ! rc = component_size ?response (group_size ?gs) ?entries e rc"
    and displ0: "displcmnts st ! 0 = 0"
    and step: "\<forall>rc. 0 < rc \<and> rc < group_size ?gs \<longrightarrow>
                 displcmnts st ! rc = displcmnts st ! (rc - 1) + recvcounts st ! (rc - 1)"
    and exact: "(\<forall>e<length ?entries. \<forall>rc<group_size ?gs. 0 \<le> sint (entry_component_sizes st ! e ! rc))
                \<and> (\<Sum>e<length ?entries. \<Sum>rc<group_size ?gs. sint (entry_component_sizes st ! e ! rc))
                      < 2 ^ 31 \<longrightarrow>
                (\<Sum>rc<group_size ?gs. sint (recvcounts st ! rc))
                  = (\<Sum>e<length ?entries. \<Sum>rc<group_size ?gs. sint (entry_component_sizes st ! e ! rc))
                \<and> sint (ag_total_size call) = (\<Sum>rc<group_size ?gs. sint (recvcounts st ! rc))"
    using gather_counts [OF ready all, of "[]"] by blast
  have s: "entry_component_sizes st ! 0 ! 0 = 6" "entry_component_sizes st ! 0 ! Suc 0 = 3"
    "entry_component_sizes st ! Suc 0 ! 0 = 2" "entry_component_sizes st ! Suc 0 ! Suc 0 = 8"
    using sizes by (simp_all add: G c)
  have range: "(\<forall>e<Suc (Suc 0). \<forall>rc<Suc (Suc 0). 0 \<le> sint (entry_component_sizes st ! e ! rc))
      \<and> (\<Sum>e<Suc (Suc 0). \<Sum>rc<Suc (Suc 0). sint (entry_component_sizes st ! e ! rc)) < 2 ^ 31"
    by (simp add: less_Suc_eq all_conj_distrib s)
  have result: "(\<Sum>rc<Suc (Suc 0). sint (recvcounts st ! rc))
                  = (\<Sum>e<Suc (Suc 0). \<Sum>rc<Suc (Suc 0). sint (entry_component_sizes st ! e ! rc))
                \<and> sint (ag_total_size call) = (\<Sum>rc<Suc (Suc 0). sint (recvcounts st ! rc))"
    using exact range unfolding G n by blast
  have d1: "displcmnts st ! 1 = displcmnts st ! 0 + recvcounts st ! 0"
    using step by (simp add: G)
  have "sint (entry_component_sizes st ! 0 ! 0) + sint (entry_component_sizes st ! 0 ! 1)
         + (sint (entry_component_sizes st ! 1 ! 0) + sint (entry_component_sizes st ! 1 ! 1)) = 19"
    by (simp add: s)
  moreover have "sint (recvcounts st ! 0) + sint (recvcounts st ! 1) = 19"
    using result by (simp add: s)
  moreover have "sint (ag_total_size call) = 19"
    using result by (simp add: s)
  ultimately show ?thesis
    using run calls displ0 d1 by auto
qed

lemma sum_list_filter_upt:
  fixes f :: "nat \<Rightarrow> 'a :: comm_monoid_add"
  shows "sum_list (map f (filter P [0..<n])) = (\<Sum>i<n. if P i then f i else 0)"
  by (induction n) simp_all

lemma sum_list_upt:
  fixes f :: "nat \<Rightarrow> 'a :: comm_monoid_add"
  shows "sum_list (map f [0..<n]) = (\<Sum>i<n. f i)"
  by (induction n) simp_all

lemma sum_without_zero:
  fixes f :: "nat \<Rightarrow> 'a :: comm_monoid_add"
  assumes "\<not> P k \<Longrightarrow> f k = 0" "\<forall>i. i \<noteq> k \<longrightarrow> P i"
  shows "sum_list (map f (filter P [0..<n])) = (\<Sum>i<n. f i)"
proof -
  have "(if P i then f i else 0) = f i" for i
    using assms by (cases "i = k") auto
  then show ?thesis
    by (simp add: sum_list_filter_upt)
qed

text \<open>
  Claim C9. A table entry of 0 for the entry \<open>e0\<close> and the rank \<open>rc0\<close> is handled as
  any other: the call returns \<^verbatim>\<open>Status::OK()\<close> when the outputs can be allocated, the
  size of that component is 0, and every receive count, every displacement and every
  offset is what the sums give when that component is left out. The entry after
  \<open>e0\<close> starts at the same offset as \<open>e0\<close> at the rank \<open>rc0\<close>.
\<close>

theorem zero_extent_is_neutral:
  assumes "gather_ready gs entries response" "allocations_succeed env gs entries response"
    and "e0 < length entries" "rc0 < group_size gs"
    and "tensor_sizes response ! (e0 * group_size gs + rc0) = 0"
  shows "\<exists>st. AllgatherOp_Execute env gs trace entries response = Inr (OK, st)
           \<and> entry_component_sizes st ! e0 ! rc0 = 0
           \<and> (\<forall>rc<group_size gs.
                 recvcounts st ! rc = recvcount_without response (group_size gs) entries (e0, rc0) rc
               \<and> displcmnts st ! rc
                   = displacement_without response (group_size gs) entries (e0, rc0) rc
               \<and> (\<forall>e<length entries.
                     entry_component_offsets st ! e ! rc
                       = offset_without response (group_size gs) entries (e0, rc0) e rc))
           \<and> (Suc e0 < length entries \<longrightarrow>
                 entry_component_offsets st ! Suc e0 ! rc0 = entry_component_offsets st ! e0 ! rc0)"
proof -
  let ?st = "gather_result env gs trace entries response"
  let ?G = "group_size gs"
  let ?n = "length entries"
  let ?c = "component_size response ?G entries"
  have run: "AllgatherOp_Execute env gs trace entries response = Inr (OK, ?st)"
    using assms(1,2) by (rule AllgatherOp_Execute_success)
  have zero: "?c e0 rc0 = 0"
    using assms(5) by (simp add: component_size_def)
  have size0: "entry_component_sizes ?st ! e0 ! rc0 = 0"
    using assms(3,4) zero by (simp add: gather_result_nth(3))
  have recv: "recvcounts ?st ! rc = recvcount_without response ?G entries (e0, rc0) rc"
    if rc: "rc < ?G" for rc
  proof -
    have "sum_list (map (\<lambda>e. ucast (?c e rc) :: int32)
                     (filter (\<lambda>e. (e, rc) \<noteq> (e0, rc0)) [0..<?n]))
            = (\<Sum>e<?n. ucast (?c e rc))"
      by (rule sum_without_zero [where k = e0]) (auto simp add: zero)
    then show ?thesis
      using gather_result_nth(1) [OF rc, of env trace entries response]
      by (simp add: recvcount_without_def)
  qed
  have displ: "displcmnts ?st ! rc = displacement_without response ?G entries (e0, rc0) rc"
    if rc: "rc < ?G" for rc
  proof -
    have "(\<Sum>i<rc. recvcounts ?st ! i)
            = (\<Sum>i<rc. recvcount_without response ?G entries (e0, rc0) i)"
      using rc by (intro sum.cong refl) (simp add: recv)
    then show ?thesis
      using gather_result_nth(2) [OF rc, of env trace entries response]
      by (simp add: displacement_without_def sum_list_upt)
  qed
  have offs: "entry_component_offsets ?st ! e ! rc = offset_without response ?G entries (e0, rc0) e rc"
    if rc: "rc < ?G" and e: "e < ?n" for e rc
  proof -
    have "sum_list (map (\<lambda>j. ?c j rc) (filter (\<lambda>j. (j, rc) \<noteq> (e0, rc0)) [0..<e]))
            = (\<Sum>j<e. ?c j rc)"
      by (rule sum_without_zero [where k = e0]) (auto simp add: zero)
    moreover have "(\<Sum>j<e. entry_component_sizes ?st ! j ! rc) = (\<Sum>j<e. ?c j rc)"
      using rc e by (intro sum.cong refl) (simp add: gather_result_nth(3))
    moreover have "(\<Sum>i<rc. recvcounts ?st ! i) = displcmnts ?st ! rc"
      using gather_result_nth(2) [OF rc, of env trace entries response] by simp
    ultimately show ?thesis
      using gather_result_nth(4) [OF rc e, of env trace response]
      by (simp add: offset_without_def displ [OF rc])
  qed
  have next_offset: "entry_component_offsets ?st ! Suc e0 ! rc0 = entry_component_offsets ?st ! e0 ! rc0"
    if "Suc e0 < ?n"
    using gather_result_nth(4) [OF assms(4) that, of env trace response]
      gather_result_nth(4) [OF assms(4,3), of env trace response] size0
    by simp
  show ?thesis
    using run size0 recv displ offs next_offset by blast
qed

theorem zero_extent_is_neutral_witness:
  "\<exists>st. AllgatherOp_Execute succeeding (process 0 3) []
           [gather_entry [2, 4], gather_entry [1, 2]] (sizes_response [2, 0, 5, 1, 3, 1]) = Inr (OK, st)
     \<and> entry_component_sizes st ! 0 ! 1 = 0
     \<and> map (\<lambda>rc. recvcounts st ! rc) [0, 1, 2] = [10, 6, 22]
     \<and> map (\<lambda>rc. displcmnts st ! rc) [0, 1, 2] = [0, 10, 16]
     \<and> map (\<lambda>rc. entry_component_offsets st ! 0 ! rc) [0, 1, 2] = [0, 10, 16]
     \<and> map (\<lambda>rc. entry_component_offsets st ! 1 ! rc) [0, 1, 2] = [8, 10, 36]"
proof -
  let ?gs = "process 0 3"
  let ?entries = "[gather_entry [2, 4], gather_entry [1, 2]]"
  let ?response = "sizes_response [2, 0, 5, 1, 3, 1]"
  have G: "group_size ?gs = Suc (Suc (Suc 0))"
    by (simp add: group_size_def process_def eval_nat_numeral)
  have ready: "gather_ready ?gs ?entries ?response"
    by (simp add: gather_ready_def process_def sizes_response_def group_size_def)
  have all: "allocations_succeed succeeding ?gs ?entries ?response"
    by (simp add: allocations_succeed_def succeeding_def)
  have zero: "tensor_sizes ?response ! (0 * group_size ?gs + Suc 0) = 0"
    by (simp add: sizes_response_def)
  have c: "component_size ?response (Suc (Suc (Suc 0))) ?entries 0 0 = 8"
    "component_size ?response (Suc (Suc (Suc 0))) ?entries 0 (Suc 0) = 0"
    "component_size ?response (Suc (Suc (Suc 0))) ?entries 0 (Suc (Suc 0)) = 20"
    "component_size ?response (Suc (Suc (Suc 0))) ?entries (Suc 0) 0 = 2"
    "component_size ?response (Suc (Suc (Suc 0))) ?entries (Suc 0) (Suc 0) = 6"
    "component_size ?response (Suc (Suc (Suc 0))) ?entries (Suc 0) (Suc (Suc 0)) = 2"
    by (simp_all add: component_size_def single_slice_shape_eq num_elements_def
          gather_entry_def sizes_response_def)
  have r: "recvcount_without ?response (Suc (Suc (Suc 0))) ?entries (0, Suc 0) 0 = 10"
    "recvcount_without ?response (Suc (Suc (Suc 0))) ?entries (0, Suc 0) (Suc 0) = 6"
    "recvcount_without ?response (Suc (Suc (Suc 0))) ?entries (0, Suc 0) (Suc (Suc 0)) = 22"
    by (simp_all add: recvcount_without_def c)
  have d: "displacement_without ?response (Suc (Suc (Suc 0))) ?entries (0, Suc 0) 0 = 0"
    "displacement_without ?response (Suc (Suc (Suc 0))) ?entries (0, Suc 0) (Suc 0) = 10"
    "displacement_without ?response (Suc (Suc (Suc 0))) ?entries (0, Suc 0) (Suc (Suc 0)) = 16"
    by (simp_all add: displacement_without_def r)
  have o: "offset_without ?response (Suc (Suc (Suc 0))) ?entries (0, Suc 0) 0 0 = 0"
    "offset_without ?response (Suc (Suc (Suc 0))) ?entries (0, Suc 0) 0 (Suc 0) = 10"
    "offset_without ?response (Suc (Suc (Suc 0))) ?entries (0, Suc 0) 0 (Suc (Suc 0)) = 16"
    "offset_without ?response (Suc (Suc (Suc 0))) ?entries (0, Suc 0) (Suc 0) 0 = 8"
    "offset_without ?response (Suc (Suc (Suc 0))) ?entries (0, Suc 0) (Suc 0) (Suc 0) = 10"
    "offset_without ?response (Suc (Suc (Suc 0))) ?entries (0, Suc 0) (Suc 0) (Suc (Suc 0)) = 36"
    by (simp_all add: offset_without_def d c)
  show ?thesis
    using zero_extent_is_neutral [OF ready all, of 0 "Suc 0" "[]"] zero
    by (simp add: G less_Suc_eq all_conj_distrib r d o eval_nat_numeral) blast
qed

end
